theory Spec2Isabelle
  imports Main "HOL-Library.Word"
begin

unbundle bit_operations_syntax

chapter \<open>The model of \<^verbatim>\<open>auth.go\<close>\<close>

section \<open>Values shared by the whole package\<close>

text \<open>
  Go's \<^verbatim>\<open>string\<close> and \<^verbatim>\<open>[]byte\<close> are both sequences of bytes; they are modelled as
  \<^typ>\<open>string\<close>, whose characters are the 256 byte values.

  A Go \<^verbatim>\<open>error\<close> is a value of \<open>goerr\<close>; \<^verbatim>\<open>nil\<close> is \<open>None\<close> of \<open>goerr option\<close>.
  A call either returns or panics. The panics of this file are \<^verbatim>\<open>log.Panic(err)\<close>,
  \<^verbatim>\<open>log.Panicf\<close>, the dereference of a nil \<^verbatim>\<open>*http.Response\<close>, a slice expression out of
  range (\<^verbatim>\<open>data[:n]\<close> beyond the capacity, \<^verbatim>\<open>data[n:]\<close> beyond the length) and the two
  panics of the GCM implementation.
\<close>

datatype goerr =
    ErrorsNew string
  | ErrNotExist string
  | CorruptInputError
  | KeySizeError nat
  | ErrOpen
  | ErrLib string

datatype panic =
    LogPanic goerr
  | LogPanicf string
  | NilDereference
  | SliceHighOutOfRange nat nat
  | SliceLowOutOfRange nat nat
  | IncorrectNonceLength
  | MessageTooLarge

datatype 'a result = Return 'a | Panic panic

text \<open>
  Every call that leaves the package and matters to its contract is recorded, in order, in a
  trace: the file system calls, the cipher operations, the erasure of the key (with the
  contents of the key's memory after it), the read of the random source, the login POST
  (URL and body), the blocking sleep (in seconds) and the verification GET.
\<close>

datatype event =
    EvStat string
  | EvReadFile string
  | EvWriteFile string string
  | EvNewCipher string
  | EvShred string
  | EvNewGCM
  | EvRandRead nat
  | EvSeal
  | EvOpen
  | EvPost string string
  | EvSleep int
  | EvRetryingGet string

record authDataT =
  Username :: string
  EncodedPassword :: string

section \<open>\<^verbatim>\<open>encoding/base64\<close>: \<^verbatim>\<open>StdEncoding.Strict()\<close>\<close>

text \<open>
  The standard alphabet with padding. \<^verbatim>\<open>EncodeToString\<close> packs three bytes into the 24-bit
  \<^verbatim>\<open>val\<close> and emits its four 6-bit digits; one or two remaining bytes are padded with
  \<^verbatim>\<open>=\<close>. \<^verbatim>\<open>DecodeString\<close> skips \<^verbatim>\<open>\r\<close> and \<^verbatim>\<open>\n\<close> wherever they stand, reads quanta
  of four characters, accepts padding only in the last quantum with nothing after it, and in
  strict mode refuses padding bits that are not zero. Every failure is a
  \<^verbatim>\<open>CorruptInputError\<close> (the offset it carries is left out). The slice \<^verbatim>\<open>DecodeString\<close>
  returns is cut from a buffer of \<^verbatim>\<open>DecodedLen(len(s))\<close> bytes, which is its capacity.
\<close>

definition encodeStd :: string where
  "encodeStd = ''ABCDEFGHIJKLMNOPQRSTUVWXYZabcdefghijklmnopqrstuvwxyz0123456789+/''"

definition decodeMap :: "char \<Rightarrow> nat option" where
  "decodeMap c = map_of (zip encodeStd [0..<64]) c"

fun base64_EncodeToString :: "string \<Rightarrow> string" where
  "base64_EncodeToString (a # b # c # rest) =
     (let val = of_char a * 65536 + of_char b * 256 + of_char c in
      [encodeStd ! (val div 262144 mod 64), encodeStd ! (val div 4096 mod 64),
       encodeStd ! (val div 64 mod 64), encodeStd ! (val mod 64)] @ base64_EncodeToString rest)"
| "base64_EncodeToString [a, b] =
     (let val = of_char a * 65536 + of_char b * 256 in
      [encodeStd ! (val div 262144 mod 64), encodeStd ! (val div 4096 mod 64),
       encodeStd ! (val div 64 mod 64), CHR ''=''])"
| "base64_EncodeToString [a] =
     (let val = of_char a * 65536 in
      [encodeStd ! (val div 262144 mod 64), encodeStd ! (val div 4096 mod 64), CHR ''='', CHR ''=''])"
| "base64_EncodeToString [] = []"

fun decodeQuanta :: "string \<Rightarrow> goerr + string" where
  "decodeQuanta (a # b # c # d # rest) =
     (case (decodeMap a, decodeMap b) of
        (Some x0, Some x1) \<Rightarrow>
          (case decodeMap c of
             Some x2 \<Rightarrow>
               (case decodeMap d of
                  Some x3 \<Rightarrow>
                    (let val = x0 * 262144 + x1 * 4096 + x2 * 64 + x3 in
                     case decodeQuanta rest of
                       Inl e \<Rightarrow> Inl e
                     | Inr bs \<Rightarrow> Inr (char_of (val div 65536) # char_of (val div 256) # char_of val # bs))
                | None \<Rightarrow>
                    if d = CHR ''='' \<and> rest = [] \<and> x2 mod 4 = 0 then
                      (let val = x0 * 262144 + x1 * 4096 + x2 * 64 in
                       Inr [char_of (val div 65536), char_of (val div 256)])
                    else Inl CorruptInputError)
           | None \<Rightarrow>
               if c = CHR ''='' \<and> d = CHR ''='' \<and> rest = [] \<and> x1 mod 16 = 0 then
                 (let val = x0 * 262144 + x1 * 4096 in Inr [char_of (val div 65536)])
               else Inl CorruptInputError)
      | _ \<Rightarrow> Inl CorruptInputError)"
| "decodeQuanta [] = Inr []"
| "decodeQuanta rest = Inl CorruptInputError"

definition base64_DecodeString :: "string \<Rightarrow> goerr + string" where
  "base64_DecodeString s = decodeQuanta (filter (\<lambda>c. c \<noteq> CHR 0x0A \<and> c \<noteq> CHR 0x0D) s)"

definition base64_DecodedLen :: "nat \<Rightarrow> nat" where
  "base64_DecodedLen n = n div 4 * 3"

section \<open>The environment: files and the random source\<close>

text \<open>
  The file system is a map from names to regular files, each with its \<^verbatim>\<open>FileMode\<close> and its
  contents; distinct names are distinct files. \<^verbatim>\<open>os.Stat\<close> and \<^verbatim>\<open>os.ReadFile\<close> fail on a
  name that has no file, \<^verbatim>\<open>os.WriteFile\<close> on the empty name; access control and every
  other I/O failure are outside the model. \<^verbatim>\<open>os.WriteFile\<close> truncates a file that exists
  and keeps its mode, and creates a missing one with the permissions it is given, less the
  process's umask. \<^verbatim>\<open>rand.Read\<close> fills the buffer from the bytes the system's random
  source delivers, or reports the source's error.
\<close>

record regular_file =
  Mode :: "32 word"
  Content :: string

record world =
  files :: "string \<rightharpoonup> regular_file"
  umask :: "32 word"
  entropy :: "nat \<Rightarrow> char"
  entropy_err :: "goerr option"

definition ModePerm :: "32 word" where
  "ModePerm = 0x1FF"

definition lookup_file :: "world \<Rightarrow> string \<Rightarrow> goerr + regular_file" where
  "lookup_file w name =
     (if name = [] then Inl (ErrNotExist name)
      else case files w name of None \<Rightarrow> Inl (ErrNotExist name) | Some f \<Rightarrow> Inr f)"

definition os_Stat :: "world \<Rightarrow> string \<Rightarrow> goerr + 32 word" where
  "os_Stat w name = (case lookup_file w name of Inl e \<Rightarrow> Inl e | Inr f \<Rightarrow> Inr (Mode f))"

definition os_ReadFile :: "world \<Rightarrow> string \<Rightarrow> goerr + string" where
  "os_ReadFile w name = (case lookup_file w name of Inl e \<Rightarrow> Inl e | Inr f \<Rightarrow> Inr (Content f))"

definition os_WriteFile :: "world \<Rightarrow> string \<Rightarrow> string \<Rightarrow> 32 word \<Rightarrow> goerr option \<times> world" where
  "os_WriteFile w name data perm =
     (if name = [] then (Some (ErrNotExist name), w)
      else (None,
            w\<lparr>files := (files w)(name \<mapsto>
                 \<lparr>Mode = (case files w name of None \<Rightarrow> perm AND NOT (umask w) | Some f \<Rightarrow> Mode f),
                  Content = data\<rparr>)\<rparr>))"

definition rand_Read :: "world \<Rightarrow> string \<Rightarrow> string \<times> goerr option" where
  "rand_Read w buf =
     (case entropy_err w of
        Some e \<Rightarrow> (buf, Some e)
      | None \<Rightarrow> (map (entropy w) [0..<length buf], None))"

section \<open>The key: \<^verbatim>\<open>getKey\<close> and \<^verbatim>\<open>shred\<close>\<close>

text \<open>
  \<^verbatim>\<open>getKey\<close> stats the key file, panics unless its permission bits are exactly \<^verbatim>\<open>0400\<close>
  (256), reads it and decodes its contents. It does not look at the length of the key.
\<close>

definition getKey :: "world \<Rightarrow> string \<Rightarrow> string result \<times> event list" where
  "getKey w keyFilename =
     (case os_Stat w keyFilename of
        Inl err \<Rightarrow> (Panic (LogPanic err), [EvStat keyFilename])
      | Inr mode \<Rightarrow>
          if mode AND ModePerm \<noteq> 256 then
            (Panic (LogPanicf (''key file '' @ keyFilename @ '' must have perms set to 0400'')),
             [EvStat keyFilename])
          else
            (case os_ReadFile w keyFilename of
               Inl err \<Rightarrow> (Panic (LogPanic err), [EvStat keyFilename, EvReadFile keyFilename])
             | Inr content \<Rightarrow>
                 (case base64_DecodeString content of
                    Inl err \<Rightarrow> (Panic (LogPanic err), [EvStat keyFilename, EvReadFile keyFilename])
                  | Inr key \<Rightarrow> (Return key, [EvStat keyFilename, EvReadFile keyFilename]))))"

text \<open>The loop \<^verbatim>\<open>for i := range *key { (*key)[i] = 0x69 }\<close>, from index \<open>i\<close> on.\<close>

function shred_from :: "nat \<Rightarrow> string \<Rightarrow> string" where
  "shred_from i key = (if i < length key then shred_from (Suc i) (key[i := CHR 0x69]) else key)"
  by pat_completeness auto
termination
  by (relation "measure (\<lambda>(i, key). length key - i)") auto

declare shred_from.simps [simp del]

definition shred :: "string \<Rightarrow> string" where
  "shred key = shred_from 0 key"

section \<open>The library: AES-GCM and gob\<close>

text \<open>
  \<^verbatim>\<open>aes.NewCipher\<close> accepts a key of 16, 24 or 32 bytes and expands it into a block cipher
  of its own (a copy: erasing the key afterwards does not touch the cipher); any other
  length is a \<^verbatim>\<open>KeySizeError\<close>. \<^verbatim>\<open>cipher.NewGCM\<close> wraps a cipher whose block size is 16,
  which every AES cipher has; its nonce size is 12. \<^verbatim>\<open>errors.Is\<close> on two
  \<^verbatim>\<open>KeySizeError\<close> values compares them.

  What AES-GCM and gob compute is not part of this repository. They are the fields of a
  record the model takes as a parameter: \<open>aes_gcm_seal key nonce plaintext ad\<close> is the
  ciphertext followed by the tag, \<open>aes_gcm_open key nonce ciphertext ad\<close> the plaintext or
  \<open>None\<close> when authentication fails, \<open>gob_Encode\<close> and \<open>gob_Decode\<close> the two
  directions of gob on an \<^verbatim>\<open>authDataT\<close>, and \<open>caseRanges_rest c r\<close> is what the table
  \<^verbatim>\<open>unicode.CaseRanges\<close> maps a rune \<open>r\<close> above \<^verbatim>\<open>U+017F\<close> to, in the case \<open>c\<close>; the rows
  of the table up to \<^verbatim>\<open>U+017F\<close> are written out below. \<^verbatim>\<open>Seal\<close> and \<^verbatim>\<open>Open\<close> append their result to
  \<^verbatim>\<open>dst\<close> and panic on a nonce of the wrong length; \<^verbatim>\<open>Seal\<close> panics on a plaintext
  longer than \<open>(2\<^sup>3\<^sup>2 - 2) * 16\<close> bytes.
\<close>

datatype block = AESBlock string

definition aes_NewCipher :: "string \<Rightarrow> goerr + block" where
  "aes_NewCipher key =
     (if length key = 16 \<or> length key = 24 \<or> length key = 32 then Inr (AESBlock key)
      else Inl (KeySizeError (length key)))"

definition errors_Is :: "goerr \<Rightarrow> goerr \<Rightarrow> bool" where
  "errors_Is err target = (err = target)"

definition BlockSize :: "block \<Rightarrow> nat" where
  "BlockSize b = 16"

datatype aead = GCM block

definition cipher_NewGCM :: "block \<Rightarrow> goerr + aead" where
  "cipher_NewGCM b =
     (if BlockSize b \<noteq> 16 then Inl (ErrLib ''cipher: NewGCM requires 128-bit block cipher'')
      else Inr (GCM b))"

definition NonceSize :: "aead \<Rightarrow> nat" where
  "NonceSize g = 12"

fun key_of :: "aead \<Rightarrow> string" where
  "key_of (GCM (AESBlock key)) = key"

record stdlib =
  aes_gcm_seal :: "string \<Rightarrow> string \<Rightarrow> string \<Rightarrow> string \<Rightarrow> string"
  aes_gcm_open :: "string \<Rightarrow> string \<Rightarrow> string \<Rightarrow> string \<Rightarrow> string option"
  gob_Encode :: "authDataT \<Rightarrow> goerr + string"
  gob_Decode :: "string \<Rightarrow> goerr + authDataT"
  caseRanges_rest :: "nat \<Rightarrow> nat \<Rightarrow> nat"

definition gcm_Seal :: "stdlib \<Rightarrow> aead \<Rightarrow> string \<Rightarrow> string \<Rightarrow> string \<Rightarrow> string \<Rightarrow> string result" where
  "gcm_Seal L g dst nonce plaintext ad =
     (if length nonce \<noteq> NonceSize g then Panic IncorrectNonceLength
      else if length plaintext > 68719476704 then Panic MessageTooLarge
      else Return (dst @ aes_gcm_seal L (key_of g) nonce plaintext ad))"

definition gcm_Open ::
  "stdlib \<Rightarrow> aead \<Rightarrow> string \<Rightarrow> string \<Rightarrow> string \<Rightarrow> string \<Rightarrow> (goerr + string) result" where
  "gcm_Open L g dst nonce ciphertext ad =
     (if length nonce \<noteq> NonceSize g then Panic IncorrectNonceLength
      else Return (case aes_gcm_open L (key_of g) nonce ciphertext ad of
                     None \<Rightarrow> Inl ErrOpen
                   | Some plaintext \<Rightarrow> Inr (dst @ plaintext)))"

section \<open>The credential store: \<^verbatim>\<open>writeCreds\<close> and \<^verbatim>\<open>readCreds\<close>\<close>

definition additionalContext :: string where
  "additionalContext = ''irdata.auth''"

definition makeNonce :: "world \<Rightarrow> aead \<Rightarrow> string \<times> goerr option" where
  "makeNonce w gcm = rand_Read w (replicate (NonceSize gcm) (CHR 0x00))"

text \<open>
  \<^verbatim>\<open>writeCreds\<close> returns nothing; the model returns the world it leaves and its trace. The
  key is erased right after \<^verbatim>\<open>aes.NewCipher\<close> and before its error is looked at.
  \<^verbatim>\<open>Seal(nonce, nonce, ...)\<close> appends the sealed bytes to the nonce.
\<close>

definition writeCreds ::
  "stdlib \<Rightarrow> world \<Rightarrow> string \<Rightarrow> string \<Rightarrow> authDataT \<Rightarrow> unit result \<times> world \<times> event list" where
  "writeCreds L w keyFilename authFilename authData =
     (case getKey w keyFilename of
        (Panic p, tr) \<Rightarrow> (Panic p, w, tr)
      | (Return key, tr) \<Rightarrow>
          (let tr1 = tr @ [EvNewCipher key, EvShred (shred key)] in
           case aes_NewCipher key of
             Inl err \<Rightarrow>
               if errors_Is err (KeySizeError 0) then
                 (Panic (LogPanic (ErrorsNew ''key must be 16, 24, or 32 bytes long'')), w, tr1)
               else (Panic (LogPanic err), w, tr1)
           | Inr block \<Rightarrow>
               (case cipher_NewGCM block of
                  Inl err \<Rightarrow> (Panic (LogPanic err), w, tr1 @ [EvNewGCM])
                | Inr aesgcm \<Rightarrow>
                    (let tr2 = tr1 @ [EvNewGCM, EvRandRead (NonceSize aesgcm)] in
                     case makeNonce w aesgcm of
                       (nonce, Some err) \<Rightarrow> (Panic (LogPanic err), w, tr2)
                     | (nonce, None) \<Rightarrow>
                         (case gob_Encode L authData of
                            Inl err \<Rightarrow> (Panic (LogPanic err), w, tr2)
                          | Inr buf \<Rightarrow>
                              (case gcm_Seal L aesgcm nonce nonce buf additionalContext of
                                 Panic p \<Rightarrow> (Panic p, w, tr2 @ [EvSeal])
                               | Return data \<Rightarrow>
                                   (let base64data = base64_EncodeToString data;
                                        tr3 = tr2 @ [EvSeal, EvWriteFile authFilename base64data] in
                                    case os_WriteFile w authFilename base64data ModePerm of
                                      (Some err, w') \<Rightarrow> (Panic (LogPanic err), w', tr3)
                                    | (None, w') \<Rightarrow> (Return (), w', tr3))))))))"

text \<open>
  \<^verbatim>\<open>readCreds\<close> does not change the world. The two slice expressions
  \<^verbatim>\<open>data[:aesgcm.NonceSize()]\<close> and \<^verbatim>\<open>data[aesgcm.NonceSize():]\<close> are evaluated in this
  order, before \<^verbatim>\<open>Open\<close> is called: the first panics when the nonce size exceeds the
  capacity of \<^verbatim>\<open>data\<close>, the second when it exceeds its length.
\<close>

definition readCreds ::
  "stdlib \<Rightarrow> world \<Rightarrow> string \<Rightarrow> string \<Rightarrow> authDataT result \<times> event list" where
  "readCreds L w keyFilename authFilename =
     (case getKey w keyFilename of
        (Panic p, tr) \<Rightarrow> (Panic p, tr)
      | (Return key, tr) \<Rightarrow>
          (let tr1 = tr @ [EvNewCipher key, EvShred (shred key)] in
           case aes_NewCipher key of
             Inl err \<Rightarrow> (Panic (LogPanic err), tr1)
           | Inr block \<Rightarrow>
               (case cipher_NewGCM block of
                  Inl err \<Rightarrow> (Panic (LogPanic err), tr1 @ [EvNewGCM])
                | Inr aesgcm \<Rightarrow>
                    (let tr2 = tr1 @ [EvNewGCM, EvReadFile authFilename] in
                     case os_ReadFile w authFilename of
                       Inl err \<Rightarrow> (Panic (LogPanic err), tr2)
                     | Inr base64data \<Rightarrow>
                         (case base64_DecodeString base64data of
                            Inl err \<Rightarrow> (Panic (LogPanic err), tr2)
                          | Inr data \<Rightarrow>
                              if base64_DecodedLen (length base64data) < NonceSize aesgcm then
                                (Panic (SliceHighOutOfRange (NonceSize aesgcm)
                                          (base64_DecodedLen (length base64data))), tr2)
                              else if length data < NonceSize aesgcm then
                                (Panic (SliceLowOutOfRange (NonceSize aesgcm) (length data)), tr2)
                              else
                                (case gcm_Open L aesgcm [] (take (NonceSize aesgcm) data)
                                        (drop (NonceSize aesgcm) data) additionalContext of
                                   Panic p \<Rightarrow> (Panic p, tr2 @ [EvOpen])
                                 | Return (Inl err) \<Rightarrow> (Panic (LogPanic err), tr2 @ [EvOpen])
                                 | Return (Inr authGob) \<Rightarrow>
                                     (case gob_Decode L authGob of
                                        Inl err \<Rightarrow> (Panic (LogPanic err), tr2 @ [EvOpen])
                                      | Inr authData \<Rightarrow> (Return authData, tr2 @ [EvOpen]))))))))"

section \<open>\<^verbatim>\<open>crypto/sha256\<close> and \<^verbatim>\<open>encodePassword\<close>\<close>

text \<open>
  SHA-256 as FIPS 180-4 defines it, on 32-bit words: the message is padded with \<^verbatim>\<open>0x80\<close>,
  zeros and its length in bits as a 64-bit big-endian number, and folded into the hash
  state in blocks of 64 bytes; the digest is the state in big-endian bytes. A rotation is
  the pair of shifts \<^verbatim>\<open>bits.RotateLeft32\<close> computes.
\<close>

definition sha256_K :: "32 word list" where
  "sha256_K =
    [0x428a2f98, 0x71374491, 0xb5c0fbcf, 0xe9b5dba5, 0x3956c25b, 0x59f111f1, 0x923f82a4, 0xab1c5ed5,
     0xd807aa98, 0x12835b01, 0x243185be, 0x550c7dc3, 0x72be5d74, 0x80deb1fe, 0x9bdc06a7, 0xc19bf174,
     0xe49b69c1, 0xefbe4786, 0x0fc19dc6, 0x240ca1cc, 0x2de92c6f, 0x4a7484aa, 0x5cb0a9dc, 0x76f988da,
     0x983e5152, 0xa831c66d, 0xb00327c8, 0xbf597fc7, 0xc6e00bf3, 0xd5a79147, 0x06ca6351, 0x14292967,
     0x27b70a85, 0x2e1b2138, 0x4d2c6dfc, 0x53380d13, 0x650a7354, 0x766a0abb, 0x81c2c92e, 0x92722c85,
     0xa2bfe8a1, 0xa81a664b, 0xc24b8b70, 0xc76c51a3, 0xd192e819, 0xd6990624, 0xf40e3585, 0x106aa070,
     0x19a4c116, 0x1e376c08, 0x2748774c, 0x34b0bcb5, 0x391c0cb3, 0x4ed8aa4a, 0x5b9cca4f, 0x682e6ff3,
     0x748f82ee, 0x78a5636f, 0x84c87814, 0x8cc70208, 0x90befffa, 0xa4506ceb, 0xbef9a3f7, 0xc67178f2]"

type_synonym sha256_state =
  "32 word \<times> 32 word \<times> 32 word \<times> 32 word \<times> 32 word \<times> 32 word \<times> 32 word \<times> 32 word"

definition sha256_init :: sha256_state where
  "sha256_init =
     (0x6a09e667, 0xbb67ae85, 0x3c6ef372, 0xa54ff53a, 0x510e527f, 0x9b05688c, 0x1f83d9ab, 0x5be0cd19)"

definition rotr :: "nat \<Rightarrow> 32 word \<Rightarrow> 32 word" where
  "rotr n x = drop_bit n x OR push_bit (32 - n) x"

definition Ch :: "32 word \<Rightarrow> 32 word \<Rightarrow> 32 word \<Rightarrow> 32 word" where
  "Ch x y z = (x AND y) XOR (NOT x AND z)"

definition Maj :: "32 word \<Rightarrow> 32 word \<Rightarrow> 32 word \<Rightarrow> 32 word" where
  "Maj x y z = (x AND y) XOR (x AND z) XOR (y AND z)"

definition bsig0 :: "32 word \<Rightarrow> 32 word" where
  "bsig0 x = rotr 2 x XOR rotr 13 x XOR rotr 22 x"

definition bsig1 :: "32 word \<Rightarrow> 32 word" where
  "bsig1 x = rotr 6 x XOR rotr 11 x XOR rotr 25 x"

definition ssig0 :: "32 word \<Rightarrow> 32 word" where
  "ssig0 x = rotr 7 x XOR rotr 18 x XOR drop_bit 3 x"

definition ssig1 :: "32 word \<Rightarrow> 32 word" where
  "ssig1 x = rotr 17 x XOR rotr 19 x XOR drop_bit 10 x"

definition be32 :: "char \<Rightarrow> char \<Rightarrow> char \<Rightarrow> char \<Rightarrow> 32 word" where
  "be32 a b c d =
     push_bit 24 (of_char a) OR push_bit 16 (of_char b) OR push_bit 8 (of_char c) OR of_char d"

definition bytes_of_word32 :: "32 word \<Rightarrow> string" where
  "bytes_of_word32 x =
     [char_of (unat (drop_bit 24 x)), char_of (unat (drop_bit 16 x)),
      char_of (unat (drop_bit 8 x)), char_of (unat x)]"

definition sha256_pad :: "string \<Rightarrow> string" where
  "sha256_pad m =
     m @ [CHR 0x80] @ replicate ((119 - length m mod 64) mod 64) (CHR 0x00)
       @ map (\<lambda>i. char_of ((8 * length m) div 2 ^ (8 * (7 - i)))) [0..<8]"

fun sha256_words :: "string \<Rightarrow> 32 word list" where
  "sha256_words (a # b # c # d # rest) = be32 a b c d # sha256_words rest"
| "sha256_words rest = []"

fun sha256_schedule :: "nat \<Rightarrow> 32 word list \<Rightarrow> 32 word list" where
  "sha256_schedule 0 ws = ws"
| "sha256_schedule (Suc n) ws =
     (let t = length ws in
      sha256_schedule n
        (ws @ [ssig1 (ws ! (t - 2)) + ws ! (t - 7) + ssig0 (ws ! (t - 15)) + ws ! (t - 16)]))"

fun sha256_round :: "sha256_state \<Rightarrow> 32 word \<times> 32 word \<Rightarrow> sha256_state" where
  "sha256_round (a, b, c, d, e, f, g, h) (k, x) =
     (let t1 = h + bsig1 e + Ch e f g + k + x; t2 = bsig0 a + Maj a b c
      in (t1 + t2, a, b, c, d + t1, e, f, g))"

fun sha256_add :: "sha256_state \<Rightarrow> sha256_state \<Rightarrow> sha256_state" where
  "sha256_add (a, b, c, d, e, f, g, h) (a', b', c', d', e', f', g', h') =
     (a + a', b + b', c + c', d + d', e + e', f + f', g + g', h + h')"

definition sha256_block :: "sha256_state \<Rightarrow> string \<Rightarrow> sha256_state" where
  "sha256_block H blk =
     sha256_add H (foldl sha256_round H (zip sha256_K (sha256_schedule 48 (sha256_words blk))))"

function sha256_blocks :: "sha256_state \<Rightarrow> string \<Rightarrow> sha256_state" where
  "sha256_blocks H m =
     (if length m < 64 then H else sha256_blocks (sha256_block H (take 64 m)) (drop 64 m))"
  by pat_completeness auto
termination
  by (relation "measure (\<lambda>(H, m). length m)") auto

declare sha256_blocks.simps [simp del]

fun sha256_digest :: "sha256_state \<Rightarrow> string" where
  "sha256_digest (a, b, c, d, e, f, g, h) = concat (map bytes_of_word32 [a, b, c, d, e, f, g, h])"

definition sha256_Sum256 :: "string \<Rightarrow> string" where
  "sha256_Sum256 m = sha256_digest (sha256_blocks sha256_init (sha256_pad m))"

text \<open>
  The \<^verbatim>\<open>hash.Hash\<close> that \<^verbatim>\<open>sha256.New()\<close> returns is the message written so far:
  \<^verbatim>\<open>Write\<close> appends to it and never reports an error, \<^verbatim>\<open>Sum(b)\<close> appends the digest of
  the message to \<^verbatim>\<open>b\<close>.
\<close>

definition sha256_New :: string where
  "sha256_New = []"

definition hash_Write :: "string \<Rightarrow> string \<Rightarrow> string \<times> nat \<times> goerr option" where
  "hash_Write hasher p = (hasher @ p, length p, None)"

definition hash_Sum :: "string \<Rightarrow> string \<Rightarrow> string" where
  "hash_Sum hasher b = b @ sha256_Sum256 hasher"

text \<open>
  \<^verbatim>\<open>strings.ToLower\<close>: a string of ASCII bytes only is mapped byte by byte, \<^verbatim>\<open>A\<close> to \<^verbatim>\<open>Z\<close>
  moved up by \<^verbatim>\<open>'a' - 'A'\<close>; any other string is \<^verbatim>\<open>strings.Map(unicode.ToLower, s)\<close>.

  \<^verbatim>\<open>strings.Map\<close> reads the string rune by rune, as \<^verbatim>\<open>utf8.DecodeRuneInString\<close> does: the
  first byte decides the length of the sequence and the range of the second byte, the other
  bytes are continuation bytes, and a byte that starts no valid sequence is the rune
  \<^verbatim>\<open>RuneError\<close> of width 1. It writes the mapped runes with \<^verbatim>\<open>utf8.AppendRune\<close>, which encodes
  a surrogate or a rune beyond \<^verbatim>\<open>MaxRune\<close> as \<^verbatim>\<open>RuneError\<close>. (Its shortcut for a string that
  the mapping leaves unchanged returns the same bytes.)
\<close>

definition lower_ascii :: "char \<Rightarrow> char" where
  "lower_ascii c = (if 65 \<le> (of_char c :: nat) \<and> (of_char c :: nat) \<le> 90 then char_of (of_char c + 32 :: nat) else c)"

definition RuneError :: nat where
  "RuneError = 0xFFFD"

definition utf8_first :: "nat \<Rightarrow> (nat \<times> nat \<times> nat) option" where
  "utf8_first b =
     (if 0xC2 \<le> b \<and> b \<le> 0xDF then Some (2, 0x80, 0xBF)
      else if b = 0xE0 then Some (3, 0xA0, 0xBF)
      else if 0xE1 \<le> b \<and> b \<le> 0xEC then Some (3, 0x80, 0xBF)
      else if b = 0xED then Some (3, 0x80, 0x9F)
      else if 0xEE \<le> b \<and> b \<le> 0xEF then Some (3, 0x80, 0xBF)
      else if b = 0xF0 then Some (4, 0x90, 0xBF)
      else if 0xF1 \<le> b \<and> b \<le> 0xF3 then Some (4, 0x80, 0xBF)
      else if b = 0xF4 then Some (4, 0x80, 0x8F)
      else None)"

definition utf8_DecodeRune :: "string \<Rightarrow> nat \<times> nat" where
  "utf8_DecodeRune s =
     (if s = [] then (RuneError, 0)
      else
        (let s0 = of_char (s ! 0) :: nat in
         if s0 < 0x80 then (s0, 1)
         else
           (case utf8_first s0 of
              None \<Rightarrow> (RuneError, 1)
            | Some (sz, lo, hi) \<Rightarrow>
                if length s < sz then (RuneError, 1)
                else
                  (let s1 = of_char (s ! 1) :: nat in
                   if s1 < lo \<or> hi < s1 then (RuneError, 1)
                   else if sz \<le> 2 then (s0 mod 32 * 64 + s1 mod 64, 2)
                   else
                     (let s2 = of_char (s ! 2) :: nat in
                      if s2 < 0x80 \<or> 0xBF < s2 then (RuneError, 1)
                      else if sz \<le> 3 then (s0 mod 16 * 4096 + s1 mod 64 * 64 + s2 mod 64, 3)
                      else
                        (let s3 = of_char (s ! 3) :: nat in
                         if s3 < 0x80 \<or> 0xBF < s3 then (RuneError, 1)
                         else (s0 mod 8 * 262144 + s1 mod 64 * 4096 + s2 mod 64 * 64 + s3 mod 64, 4)))))))"

function utf8_runes :: "string \<Rightarrow> nat list" where
  "utf8_runes s =
     (if s = [] then []
      else fst (utf8_DecodeRune s) # utf8_runes (drop (snd (utf8_DecodeRune s)) s))"
  by pat_completeness auto
termination
  by (relation "measure length")
     (auto simp: utf8_DecodeRune_def Let_def split: option.splits prod.splits if_splits)

declare utf8_runes.simps [simp del]

definition utf8_AppendRune :: "nat \<Rightarrow> string" where
  "utf8_AppendRune r =
     (if r \<le> 0x7F then [char_of r]
      else if r \<le> 0x7FF then [char_of (0xC0 + r div 64), char_of (0x80 + r mod 64)]
      else if 0x10FFFF < r \<or> (0xD800 \<le> r \<and> r \<le> 0xDFFF) then [CHR 0xEF, CHR 0xBF, CHR 0xBD]
      else if r \<le> 0xFFFF then
        [char_of (0xE0 + r div 4096), char_of (0x80 + r div 64 mod 64), char_of (0x80 + r mod 64)]
      else
        [char_of (0xF0 + r div 262144), char_of (0x80 + r div 4096 mod 64),
         char_of (0x80 + r div 64 mod 64), char_of (0x80 + r mod 64)])"

definition strings_Map :: "(nat \<Rightarrow> nat) \<Rightarrow> string \<Rightarrow> string" where
  "strings_Map mapping s = concat (map (\<lambda>c. utf8_AppendRune (mapping c)) (utf8_runes s))"


definition LowerCase :: nat where
  "LowerCase = 1"

definition TitleCase :: nat where
  "TitleCase = 2"

definition MaxRune :: int where
  "MaxRune = 0x10FFFF"

definition UpperLower :: int where
  "UpperLower = MaxRune + 1"

type_synonym CaseRange = "nat \<times> nat \<times> int list"

definition caseRanges_latin :: "CaseRange list" where
  "caseRanges_latin =
     [(0x00B5, 0x00B5, [743, 0, 743]),
      (0x00C0, 0x00D6, [0, 32, 0]),
      (0x00D8, 0x00DE, [0, 32, 0]),
      (0x00E0, 0x00F6, [- 32, 0, - 32]),
      (0x00F8, 0x00FE, [- 32, 0, - 32]),
      (0x00FF, 0x00FF, [121, 0, 121]),
      (0x0100, 0x012F, [UpperLower, UpperLower, UpperLower]),
      (0x0130, 0x0130, [0, - 199, 0]),
      (0x0131, 0x0131, [- 232, 0, - 232]),
      (0x0132, 0x0137, [UpperLower, UpperLower, UpperLower]),
      (0x0139, 0x0148, [UpperLower, UpperLower, UpperLower]),
      (0x014A, 0x0177, [UpperLower, UpperLower, UpperLower]),
      (0x0178, 0x0178, [0, - 121, 0]),
      (0x0179, 0x017E, [UpperLower, UpperLower, UpperLower]),
      (0x017F, 0x017F, [- 300, 0, - 300])]"

fun unicode_to :: "nat \<Rightarrow> nat \<Rightarrow> CaseRange list \<Rightarrow> nat" where
  "unicode_to c r [] = r"
| "unicode_to c r ((lo, hi, delta) # caseRange) =
     (if lo \<le> r \<and> r \<le> hi then
        (if delta ! c > MaxRune then lo + ((r - lo) div 2 * 2 + c mod 2)
         else nat (int r + delta ! c))
      else unicode_to c r caseRange)"

definition unicode_ToLower :: "stdlib \<Rightarrow> nat \<Rightarrow> nat" where
  "unicode_ToLower L r =
     (if r \<le> 0x7F then (if 0x41 \<le> r \<and> r \<le> 0x5A then r + 32 else r)
      else if r \<le> 0x17F then unicode_to LowerCase r caseRanges_latin
      else caseRanges_rest L LowerCase r)"

definition strings_ToLower :: "stdlib \<Rightarrow> string \<Rightarrow> string" where
  "strings_ToLower L s =
     (if list_all (\<lambda>c. (of_char c :: nat) < 128) s then map lower_ascii s
      else strings_Map (unicode_ToLower L) s)"

definition encodePassword :: "stdlib \<Rightarrow> string \<Rightarrow> string \<Rightarrow> string result" where
  "encodePassword L username password =
     (case hash_Write sha256_New password of
        (hasher1, n1, Some err) \<Rightarrow> Panic (LogPanic err)
      | (hasher1, n1, None) \<Rightarrow>
          (case hash_Write hasher1 (strings_ToLower L username) of
             (hasher2, n2, Some err) \<Rightarrow> Panic (LogPanic err)
           | (hasher2, n2, None) \<Rightarrow> Return (base64_EncodeToString (hash_Sum hasher2 []))))"

section \<open>The authenticated session\<close>

definition loginURL :: string where
  "loginURL = ''https://members-ng.iracing.com/auth''"

definition testUrl :: string where
  "testUrl = ''https://members-ng.iracing.com/data/constants/event_types''"

text \<open>
  Of the struct \<^verbatim>\<open>Irdata\<close> the file uses the flag \<^verbatim>\<open>isAuthed\<close>, the HTTP client and the method
  \<^verbatim>\<open>retryingGet\<close>. The flag is the state; the client and \<^verbatim>\<open>retryingGet\<close> are the environment.
  A call of \<^verbatim>\<open>httpClient.Post\<close> or of \<^verbatim>\<open>retryingGet\<close> returns a pair
  \<^verbatim>\<open>(resp *http.Response, err error)\<close>, where either component may be nil. The client is
  the sequence of pairs it will answer the successive \<^verbatim>\<open>Post\<close> calls with: \<open>post 0\<close> answers
  the next call, and after that call the client is \<open>post \<circ> Suc\<close>. Of a response only the
  status code is read.
\<close>

record Irdata =
  isAuthed :: bool

record response =
  StatusCode :: int

type_synonym http_result = "response option \<times> goerr option"

record network =
  httpClient_Post :: "nat \<Rightarrow> http_result"
  retryingGet :: "http_result"

text \<open>
  Modelled from the spec: the constructor of \<^verbatim>\<open>Irdata\<close> is not in this file; the data model
  says the flag is "initialized false" (the zero value of a Go \<^verbatim>\<open>bool\<close>).
\<close>

definition new_Irdata :: Irdata where
  "new_Irdata = \<lparr>isAuthed = False\<rparr>"

text \<open>The request body built by \<^verbatim>\<open>fmt.Sprintf\<close> in \<^verbatim>\<open>auth\<close>.\<close>

definition login_body :: "authDataT \<Rightarrow> string" where
  "login_body authData =
     ''{'' @ [CHR 0x22] @ ''email'' @ [CHR 0x22] @ '': '' @ [CHR 0x22] @ Username authData
       @ [CHR 0x22] @ '' ,'' @ [CHR 0x22] @ ''password'' @ [CHR 0x22] @ '': '' @ [CHR 0x22]
       @ EncodedPassword authData @ [CHR 0x22] @ ''}''"

text \<open>
  The loop \<^verbatim>\<open>for retries > 0 { ... }\<close> of \<^verbatim>\<open>auth\<close>. Its state is \<^verbatim>\<open>retries\<close>, the pair
  \<^verbatim>\<open>(resp, err)\<close> of the last call and the trace; \<^verbatim>\<open>resp.StatusCode\<close> on a nil \<^verbatim>\<open>resp\<close>
  is a nil pointer dereference. The sleep comes after the decrement and is recorded in
  seconds.
\<close>

function login_loop ::
  "(nat \<Rightarrow> http_result) \<Rightarrow> string \<Rightarrow> int \<Rightarrow> http_result \<Rightarrow> event list
     \<Rightarrow> http_result result \<times> event list" where
  "login_loop post body retries prev tr =
     (if retries > 0 then
        (let (resp, err) = post 0; tr1 = tr @ [EvPost loginURL body] in
         case resp of
           None \<Rightarrow> (Panic NilDereference, tr1)
         | Some r \<Rightarrow>
             if StatusCode r < 500 then (Return (resp, err), tr1)
             else login_loop (post \<circ> Suc) body (retries - 1) (resp, err)
                    (tr1 @ [EvSleep ((6 - (retries - 1)) * 5)]))
      else (Return prev, tr))"
  by pat_completeness auto
termination
  by (relation "measure (\<lambda>(post, body, retries, prev, tr). nat retries)") auto

declare login_loop.simps [simp del]

definition auth :: "network \<Rightarrow> Irdata \<Rightarrow> authDataT \<Rightarrow> goerr option result \<times> Irdata \<times> event list" where
  "auth net i authData =
     (if isAuthed i then (Return None, i, [])
      else if EncodedPassword authData = [] then
        (Return (Some (ErrorsNew ''must provide credentials before calling'')), i, [])
      else
        (case login_loop (httpClient_Post net) (login_body authData) 5 (None, None) [] of
           (Panic p, tr) \<Rightarrow> (Panic p, i, tr)
         | (Return (resp, err), tr) \<Rightarrow>
             (case err of
                Some e \<Rightarrow> (Panic (LogPanic e), i, tr)
              | None \<Rightarrow>
                  (case resp of
                     None \<Rightarrow> (Panic NilDereference, i, tr)
                   | Some r \<Rightarrow>
                       if StatusCode r \<noteq> 200 then
                         (Return (Some (ErrorsNew ''unexpected auth failure, try debug'')), i, tr)
                       else
                         (let tr2 = tr @ [EvRetryingGet testUrl]; (resp2, err2) = retryingGet net in
                          case err2 of
                            Some e \<Rightarrow> (Panic (LogPanic e), i, tr2)
                          | None \<Rightarrow>
                              (case resp2 of
                                 None \<Rightarrow> (Panic NilDereference, i, tr2)
                               | Some g \<Rightarrow>
                                   if StatusCode g \<noteq> 200 then
                                     (if StatusCode g = 401 then
                                        (Return (Some (ErrorsNew ''login failed, check creds'')), i, tr2)
                                      else
                                        (Return (Some (ErrorsNew ''unexpected auth failure, try debug'')), i, tr2))
                                   else (Return None, i\<lparr>isAuthed := True\<rparr>, tr2)))))))"

section \<open>The exported operations\<close>

text \<open>
  A \<^verbatim>\<open>CredsProvider\<close> is the pair of username and password its \<^verbatim>\<open>GetCreds\<close> returns.
\<close>

type_synonym CredsProvider = "string \<times> string"

definition AuthWithCredsFromFile ::
  "stdlib \<Rightarrow> world \<Rightarrow> network \<Rightarrow> Irdata \<Rightarrow> string \<Rightarrow> string
     \<Rightarrow> goerr option result \<times> Irdata \<times> event list" where
  "AuthWithCredsFromFile L w net i keyFilename authFilename =
     (case readCreds L w keyFilename authFilename of
        (Panic p, tr) \<Rightarrow> (Panic p, i, tr)
      | (Return authData, tr) \<Rightarrow>
          (case auth net i authData of (res, i', tr') \<Rightarrow> (res, i', tr @ tr')))"

definition AuthWithProvideCreds ::
  "stdlib \<Rightarrow> network \<Rightarrow> Irdata \<Rightarrow> CredsProvider \<Rightarrow> goerr option result \<times> Irdata \<times> event list" where
  "AuthWithProvideCreds L net i authSource =
     (case authSource of (username, password) \<Rightarrow>
        (case encodePassword L username password of
           Panic p \<Rightarrow> (Panic p, i, [])
         | Return token \<Rightarrow> auth net i \<lparr>Username = username, EncodedPassword = token\<rparr>))"

definition SaveProvidedCredsToFile ::
  "stdlib \<Rightarrow> world \<Rightarrow> string \<Rightarrow> string \<Rightarrow> CredsProvider \<Rightarrow> unit result \<times> world \<times> event list" where
  "SaveProvidedCredsToFile L w keyFilename authFilename authSource =
     (case authSource of (username, password) \<Rightarrow>
        (case encodePassword L username password of
           Panic p \<Rightarrow> (Panic p, w, [])
         | Return token \<Rightarrow>
             writeCreds L w keyFilename authFilename \<lparr>Username = username, EncodedPassword = token\<rparr>))"

section \<open>Notions the statements use\<close>

text \<open>
  A call of the client was answered with a server error when it delivered a response whose
  status is 500 or more. \<open>failed_attempts post\<close> counts the server errors that come before
  the first other answer, among the five calls the loop can make. \<open>sleeps\<close> and
  \<open>is_post\<close> read a trace.
\<close>

definition server_error :: "http_result \<Rightarrow> bool" where
  "server_error res = (case fst res of None \<Rightarrow> False | Some r \<Rightarrow> 500 \<le> StatusCode r)"

definition failed_attempts :: "(nat \<Rightarrow> http_result) \<Rightarrow> nat" where
  "failed_attempts post = length (takeWhile (\<lambda>j. server_error (post j)) [0..<5])"

definition retry_events :: "string \<Rightarrow> int \<Rightarrow> nat \<Rightarrow> event list" where
  "retry_events body retries k =
     concat (map (\<lambda>j. [EvPost loginURL body, EvSleep ((6 - (retries - 1 - int j)) * 5)]) [0..<k])"

fun sleeps :: "event list \<Rightarrow> int list" where
  "sleeps [] = []"
| "sleeps (EvSleep s # es) = s # sleeps es"
| "sleeps (e # es) = sleeps es"

fun is_post :: "event \<Rightarrow> bool" where
  "is_post (EvPost url body) = True"
| "is_post e = False"

text \<open>
  The contracts of the library the statements rely on. An AEAD opens what it sealed: for a
  key of a valid size, a nonce of 12 bytes and a plaintext within the size limit, opening
  the sealed bytes under the same key, nonce and associated data gives the plaintext back.
  Gob decodes what it encoded.
\<close>

definition aead_roundtrip :: "stdlib \<Rightarrow> bool" where
  "aead_roundtrip L \<longleftrightarrow>
     (\<forall>key nonce plaintext ad.
        (length key = 16 \<or> length key = 24 \<or> length key = 32) \<and> length nonce = 12 \<and>
        length plaintext \<le> 68719476704 \<longrightarrow>
        aes_gcm_open L key nonce (aes_gcm_seal L key nonce plaintext ad) ad = Some plaintext)"

definition gob_roundtrip :: "stdlib \<Rightarrow> bool" where
  "gob_roundtrip L \<longleftrightarrow> (\<forall>a buf. gob_Encode L a = Inr buf \<longrightarrow> gob_Decode L buf = Inr a)"

text \<open>The upper-case counterpart of the ASCII lower-casing of \<^verbatim>\<open>strings.ToLower\<close>.\<close>

definition upper_ascii :: "char \<Rightarrow> char" where
  "upper_ascii c = (if 97 \<le> (of_char c :: nat) \<and> (of_char c :: nat) \<le> 122 then char_of (of_char c - 32 :: nat) else c)"


text \<open>
  \<open>flip_bit_at n s\<close> is the byte string \<open>s\<close> with one bit flipped: bit \<open>n mod 8\<close> of the byte
  at index \<open>n div 8\<close>, where bit 0 is the lowest bit of a byte and bit 7 its top bit.
\<close>

definition flip_bit_at :: "nat \<Rightarrow> string \<Rightarrow> string" where
  "flip_bit_at n s = s[n div 8 := char_of (flip_bit (n mod 8) (of_char (s ! (n div 8)) :: nat))]"

section \<open>Sample inputs\<close>

text \<open>
  Credentials and four networks the statements are tried on: a server that answers 503 three
  times and then 200, one that always answers 503, a client that cannot connect, and a
  server that answers 503 once and then drops the connection.
\<close>

definition sample_creds :: authDataT where
  "sample_creds = \<lparr>Username = ''user@example.com'', EncodedPassword = ''dG9rZW4=''\<rparr>"

definition flaky_server :: network where
  "flaky_server =
     \<lparr>httpClient_Post = (\<lambda>n. if n < 3 then (Some \<lparr>StatusCode = 503\<rparr>, None) else (Some \<lparr>StatusCode = 200\<rparr>, None)),
      retryingGet = (Some \<lparr>StatusCode = 200\<rparr>, None)\<rparr>"

definition failing_server :: network where
  "failing_server =
     \<lparr>httpClient_Post = (\<lambda>n. (Some \<lparr>StatusCode = 503\<rparr>, None)),
      retryingGet = (Some \<lparr>StatusCode = 200\<rparr>, None)\<rparr>"

definition offline_client :: network where
  "offline_client =
     \<lparr>httpClient_Post = (\<lambda>n. (None, Some (ErrLib ''dial tcp: connection refused''))),
      retryingGet = (None, Some (ErrLib ''dial tcp: connection refused''))\<rparr>"

definition dropping_server :: network where
  "dropping_server =
     \<lparr>httpClient_Post = (\<lambda>n. if n = 0 then (Some \<lparr>StatusCode = 503\<rparr>, None) else (None, Some (ErrLib ''EOF''))),
      retryingGet = (None, Some (ErrLib ''EOF''))\<rparr>"

text \<open>
  A small library that keeps the contracts, to try the statements on: its seal appends a tag
  made of the associated data, the nonce and the key to the plaintext, its open checks the
  tag; its gob writes the length of the username in unary, then the two strings. The sample
  world has a key file in order, one with permissions \<^verbatim>\<open>0644\<close>, one whose key has five
  bytes, and two credential files that decode to three bytes.
\<close>

definition toy_seal :: "string \<Rightarrow> string \<Rightarrow> string \<Rightarrow> string \<Rightarrow> string" where
  "toy_seal key nonce plaintext ad = plaintext @ take 16 (ad @ nonce @ key)"

definition toy_open :: "string \<Rightarrow> string \<Rightarrow> string \<Rightarrow> string \<Rightarrow> string option" where
  "toy_open key nonce ciphertext ad =
     (let tag = take 16 (ad @ nonce @ key); n = length ciphertext - length tag in
      if length tag \<le> length ciphertext \<and> drop n ciphertext = tag then Some (take n ciphertext)
      else None)"

definition toy_gob_Encode :: "authDataT \<Rightarrow> goerr + string" where
  "toy_gob_Encode a =
     Inr (replicate (length (Username a)) (CHR 0x01) @ [CHR 0x00] @ Username a @ EncodedPassword a)"

definition toy_gob_Decode :: "string \<Rightarrow> goerr + authDataT" where
  "toy_gob_Decode buf =
     (let n = length (takeWhile (\<lambda>c. c = CHR 0x01) buf) in
      if length buf < 2 * n + 1 then Inl (ErrLib ''unexpected EOF'')
      else Inr \<lparr>Username = take n (drop (n + 1) buf), EncodedPassword = drop (2 * n + 1) buf\<rparr>)"

definition toy_lib :: stdlib where
  "toy_lib =
     \<lparr>aes_gcm_seal = toy_seal, aes_gcm_open = toy_open,
      gob_Encode = toy_gob_Encode, gob_Decode = toy_gob_Decode,
      caseRanges_rest = (\<lambda>c r. r)\<rparr>"

definition sample_world :: world where
  "sample_world =
     \<lparr>files =
        [''key.b64'' \<mapsto> \<lparr>Mode = 0x100, Content = ''MDEyMzQ1Njc4OWFiY2RlZg==''\<rparr>,
         ''open.b64'' \<mapsto> \<lparr>Mode = 0x1A4, Content = ''MDEyMzQ1Njc4OWFiY2RlZg==''\<rparr>,
         ''short.b64'' \<mapsto> \<lparr>Mode = 0x100, Content = ''c2hvcnQ=''\<rparr>,
         ''tiny.creds'' \<mapsto> \<lparr>Mode = 0x1A4, Content = ''AAAA''\<rparr>,
         ''blank.creds'' \<mapsto> \<lparr>Mode = 0x1A4, Content = ''AAAA'' @ replicate 12 (CHR 0x0A)\<rparr>],
      umask = 0x12,
      entropy = (\<lambda>n. CHR 0x2A),
      entropy_err = None\<rparr>"

text \<open>
  The envelope that a save of the sample credentials writes in the sample world with the
  small library, and a world that holds it three times: as it was saved, cut down to its
  first 16 characters (the nonce alone, with no ciphertext and no tag), and with the top bit
  of its first byte flipped.
\<close>

definition saved_envelope :: string where
  "saved_envelope =
     ''KioqKioqKioqKioqAQEBAQEBAQEBAQEBAQEBAQB1c2VyQGV4YW1wbGUuY29tZEc5clpXND1pcmRhdGEuYXV0aCoqKioq''"

definition tampered_world :: world where
  "tampered_world =
     \<lparr>files =
        [''key.b64'' \<mapsto> \<lparr>Mode = 0x100, Content = ''MDEyMzQ1Njc4OWFiY2RlZg==''\<rparr>,
         ''saved.creds'' \<mapsto> \<lparr>Mode = 0x1ED, Content = saved_envelope\<rparr>,
         ''cut.creds'' \<mapsto> \<lparr>Mode = 0x1ED, Content = take 16 saved_envelope\<rparr>,
         ''flipped.creds'' \<mapsto> \<lparr>Mode = 0x1ED, Content = flip_bit_at 7 saved_envelope\<rparr>],
      umask = 0x12,
      entropy = (\<lambda>n. CHR 0x2A),
      entropy_err = None\<rparr>"

chapter \<open>Properties\<close>

section \<open>Idempotence of authenticate\<close>

text \<open>
  C9. Whenever the session is already authenticated, \<^verbatim>\<open>auth\<close> returns \<^verbatim>\<open>nil\<close>, leaves the
  session as it is and performs no network request: its trace is empty, so it holds no
  login POST and no verification GET.
\<close>

theorem auth_idempotent:
  "isAuthed i \<Longrightarrow> auth net i authData = (Return None, i, [])"
  by (simp add: auth_def)

theorem auth_idempotent_witness:
  "isAuthed \<lparr>isAuthed = True\<rparr> \<and>
   auth \<lparr>httpClient_Post = (\<lambda>n. (None, Some (ErrLib ''unreachable''))), retryingGet = (None, None)\<rparr>
        \<lparr>isAuthed = True\<rparr> \<lparr>Username = ''u'', EncodedPassword = ''p''\<rparr>
     = (Return None, \<lparr>isAuthed = True\<rparr>, [])"
  using auth_idempotent [of "\<lparr>isAuthed = True\<rparr>"
      "\<lparr>httpClient_Post = (\<lambda>n. (None, Some (ErrLib ''unreachable''))), retryingGet = (None, None)\<rparr>"
      "\<lparr>Username = ''u'', EncodedPassword = ''p''\<rparr>"]
  by simp

section \<open>The login loop\<close>

text \<open>
  As long as the client answers with server errors the loop goes on: \<open>k\<close> such answers
  leave the events \<open>retry_events body retries k\<close> in the trace, a POST and a sleep for each.
\<close>

lemma login_loop_retry_step:
  assumes "server_error (post 0)" and "0 < retries"
  shows "login_loop post body retries prev tr =
         login_loop (post \<circ> Suc) body (retries - 1) (post 0)
           (tr @ [EvPost loginURL body, EvSleep ((6 - (retries - 1)) * 5)])"
  using assms
  by (subst login_loop.simps) (auto simp: server_error_def split: option.splits prod.splits)

lemma login_loop_prefix:
  assumes "\<forall>j<k. server_error (post j)" and "int k \<le> retries"
  shows "login_loop post body retries prev tr =
         login_loop (\<lambda>j. post (j + k)) body (retries - int k)
           (if k = 0 then prev else post (k - 1)) (tr @ retry_events body retries k)"
  using assms
proof (induction k arbitrary: post retries prev tr)
  case 0
  then show ?case by (simp add: retry_events_def)
next
  case (Suc k)
  have s0: "server_error (post 0)" and pos: "0 < retries"
    using Suc.prems by auto
  have rest: "\<forall>j<k. server_error ((post \<circ> Suc) j)"
    using Suc.prems by auto
  have le: "int k \<le> retries - 1"
    using Suc.prems by simp
  have ev: "[EvPost loginURL body, EvSleep ((6 - (retries - 1)) * 5)] @ retry_events body (retries - 1) k
            = retry_events body retries (Suc k)"
    unfolding retry_events_def
    by (simp only: upt_conv_Cons [of 0 "Suc k"] map_Suc_upt [symmetric]) (simp add: comp_def algebra_simps)
  have "login_loop post body retries prev tr =
        login_loop (post \<circ> Suc) body (retries - 1) (post 0)
          (tr @ [EvPost loginURL body, EvSleep ((6 - (retries - 1)) * 5)])"
    using s0 pos by (rule login_loop_retry_step)
  also have "\<dots> = login_loop (\<lambda>j. (post \<circ> Suc) (j + k)) body (retries - 1 - int k)
          (if k = 0 then post 0 else (post \<circ> Suc) (k - 1))
          ((tr @ [EvPost loginURL body, EvSleep ((6 - (retries - 1)) * 5)]) @ retry_events body (retries - 1) k)"
    using rest le by (rule Suc.IH)
  also have "\<dots> = login_loop (\<lambda>j. post (j + Suc k)) body (retries - int (Suc k))
          (if Suc k = 0 then prev else post (Suc k - 1)) (tr @ retry_events body retries (Suc k))"
    unfolding ev [symmetric] by (cases k) (simp_all add: comp_def diff_diff_eq add.commute)
  finally show ?case .
qed

lemma failed_attempts_le: "failed_attempts post \<le> 5"
  unfolding failed_attempts_def
  using length_takeWhile_le [of "\<lambda>j. server_error (post j)" "[0..<5]"] by simp

lemma takeWhile_upt_all:
  "j < length (takeWhile P [0..<m]) \<Longrightarrow> P j"
proof -
  assume a: "j < length (takeWhile P [0..<m])"
  have "takeWhile P [0..<m] ! j = [0..<m] ! j"
    using a by (rule takeWhile_nth)
  moreover have "j < m" using a length_takeWhile_le [of P "[0..<m]"] by simp
  moreover have "P (takeWhile P [0..<m] ! j)"
    using a nth_mem set_takeWhileD by fastforce
  ultimately show "P j" by simp
qed

lemma takeWhile_upt_stop:
  "length (takeWhile P [0..<m]) < m \<Longrightarrow> \<not> P (length (takeWhile P [0..<m]))"
  using nth_length_takeWhile [of P "[0..<m]"] by simp

lemma failed_attempts_all: "j < failed_attempts post \<Longrightarrow> server_error (post j)"
  unfolding failed_attempts_def by (rule takeWhile_upt_all)

lemma failed_attempts_stop: "failed_attempts post < 5 \<Longrightarrow> \<not> server_error (post (failed_attempts post))"
  unfolding failed_attempts_def by (rule takeWhile_upt_stop)

lemma failed_attempts_unique:
  "k \<le> 5 \<Longrightarrow> \<forall>j<k. server_error (post j) \<Longrightarrow> (k < 5 \<Longrightarrow> \<not> server_error (post k))
     \<Longrightarrow> failed_attempts post = k"
  by (metis failed_attempts_all failed_attempts_stop failed_attempts_le le_neq_implies_less linorder_neqE_nat)

lemma login_loop_5:
  "login_loop post body 5 prev tr =
     (let n = failed_attempts post in
      if n = 5 then (Return (post 4), tr @ retry_events body 5 5)
      else (case fst (post n) of
              None \<Rightarrow> (Panic NilDereference, tr @ retry_events body 5 n @ [EvPost loginURL body])
            | Some r \<Rightarrow> (Return (post n), tr @ retry_events body 5 n @ [EvPost loginURL body])))"
proof -
  define n where "n = failed_attempts post"
  have all: "\<forall>j<n. server_error (post j)" and le: "int n \<le> 5"
    using failed_attempts_all failed_attempts_le [of post] by (auto simp: n_def)
  have pre: "login_loop post body 5 prev tr =
         login_loop (\<lambda>j. post (j + n)) body (5 - int n)
           (if n = 0 then prev else post (n - 1)) (tr @ retry_events body 5 n)"
    using all le by (rule login_loop_prefix)
  show ?thesis
  proof (cases "n = 5")
    case True
    then show ?thesis
      unfolding pre n_def [symmetric] by (simp add: login_loop.simps)
  next
    case False
    then have lt: "n < 5" using le by simp
    have stop: "\<not> server_error (post n)"
      using failed_attempts_stop lt by (simp add: n_def)
    show ?thesis
      unfolding pre n_def [symmetric] using False lt stop
      by (subst login_loop.simps) (auto simp: server_error_def split: option.splits prod.splits)
  qed
qed

text \<open>
  What \<^verbatim>\<open>auth\<close> does on a session that is not authenticated yet, with a secret: the login
  loop, the check of its last answer, the verification, each with its trace.
\<close>

lemma auth_unauthed:
  assumes "\<not> isAuthed i" and "EncodedPassword a \<noteq> []"
  shows "auth net i a =
     (let n = failed_attempts (httpClient_Post net);
          tr = retry_events (login_body a) 5 n @ (if n < 5 then [EvPost loginURL (login_body a)] else []);
          tr2 = tr @ [EvRetryingGet testUrl]
      in case httpClient_Post net (min n 4) of
           (None, err) \<Rightarrow> (Panic NilDereference, i, tr)
         | (Some r, Some e) \<Rightarrow> (Panic (LogPanic e), i, tr)
         | (Some r, None) \<Rightarrow>
             if StatusCode r \<noteq> 200 then
               (Return (Some (ErrorsNew ''unexpected auth failure, try debug'')), i, tr)
             else
               (case retryingGet net of
                  (resp2, Some e) \<Rightarrow> (Panic (LogPanic e), i, tr2)
                | (None, None) \<Rightarrow> (Panic NilDereference, i, tr2)
                | (Some g, None) \<Rightarrow>
                    if StatusCode g = 200 then (Return None, i\<lparr>isAuthed := True\<rparr>, tr2)
                    else if StatusCode g = 401 then
                      (Return (Some (ErrorsNew ''login failed, check creds'')), i, tr2)
                    else (Return (Some (ErrorsNew ''unexpected auth failure, try debug'')), i, tr2)))"
proof -
  define n where "n = failed_attempts (httpClient_Post net)"
  have le: "n \<le> 5" using failed_attempts_le by (simp add: n_def)
  have five: "n = 5 \<Longrightarrow> server_error (httpClient_Post net 4)"
    using failed_attempts_all [of 4 "httpClient_Post net"] by (simp add: n_def)
  show ?thesis
  proof (cases "n = 5")
    case True
    then show ?thesis
      using assms five
      by (auto simp: auth_def login_loop_5 Let_def n_def [symmetric] server_error_def
               split: option.splits prod.splits)
  next
    case False
    then have "n < 5" "min n 4 = n" using le by auto
    then show ?thesis
      using assms False
      by (auto simp: auth_def login_loop_5 Let_def n_def [symmetric]
               split: option.splits prod.splits)
  qed
qed

lemma failed_attempts_flaky: "failed_attempts (httpClient_Post flaky_server) = 3"
  by (simp add: failed_attempts_def flaky_server_def server_error_def upt_rec)

section \<open>The authenticated flag\<close>

text \<open>
  C1. The flag of a new session is false. A call of \<^verbatim>\<open>auth\<close> never resets it; it leaves it
  as it was whenever it does not return \<^verbatim>\<open>nil\<close> (an error or a panic: the empty secret, a
  login answer other than 200, a verification answer of 401 or any other status, a
  transport failure); and on a session that is not authenticated it sets it exactly when the
  secret is not empty, the login POST that ends the loop is answered, without an error, with
  status 200 (after at most four server errors) and the verification GET is answered, without
  an error, with status 200. The two operations that authenticate, \<^verbatim>\<open>AuthWithCredsFromFile\<close>
  and \<^verbatim>\<open>AuthWithProvideCreds\<close>, never reset it either; \<^verbatim>\<open>SaveProvidedCredsToFile\<close> has
  no session.
\<close>

theorem authed_flag_lifecycle:
  "\<not> isAuthed new_Irdata \<and>
   (auth net i a = (res, i', tr) \<longrightarrow>
      (isAuthed i \<longrightarrow> isAuthed i') \<and>
      (res \<noteq> Return None \<longrightarrow> isAuthed i' = isAuthed i) \<and>
      (\<not> isAuthed i \<longrightarrow>
         (isAuthed i' \<longleftrightarrow>
            EncodedPassword a \<noteq> [] \<and>
            (\<exists>k<5. (\<forall>j<k. server_error (httpClient_Post net j)) \<and>
                (\<exists>r. httpClient_Post net k = (Some r, None) \<and> StatusCode r = 200)) \<and>
            (\<exists>g. retryingGet net = (Some g, None) \<and> StatusCode g = 200)))) \<and>
   (isAuthed i \<longrightarrow>
      isAuthed (fst (snd (AuthWithCredsFromFile L w net i keyFilename authFilename))) \<and>
      isAuthed (fst (snd (AuthWithProvideCreds L net i authSource))))"
proof (intro conjI impI)
  show "\<not> isAuthed new_Irdata" by (simp add: new_Irdata_def)
next
  assume "auth net i a = (res, i', tr)" and "isAuthed i"
  then show "isAuthed i'" by (simp add: auth_def)
next
  assume run: "auth net i a = (res, i', tr)" and fail: "res \<noteq> Return None"
  show "isAuthed i' = isAuthed i"
  proof (cases "isAuthed i \<or> EncodedPassword a = []")
    case True
    then show ?thesis using run by (auto simp: auth_def split: if_splits)
  next
    case False
    then show ?thesis
      using run fail
      by (auto simp: auth_unauthed Let_def split: option.splits prod.splits if_splits)
  qed
next
  assume run: "auth net i a = (res, i', tr)" and un: "\<not> isAuthed i"
  let ?post = "httpClient_Post net"
  let ?login = "\<exists>k<5. (\<forall>j<k. server_error (?post j)) \<and> (\<exists>r. ?post k = (Some r, None) \<and> StatusCode r = 200)"
  let ?verify = "\<exists>g. retryingGet net = (Some g, None) \<and> StatusCode g = 200"
  show "isAuthed i' \<longleftrightarrow> EncodedPassword a \<noteq> [] \<and> ?login \<and> ?verify"
  proof (cases "EncodedPassword a = []")
    case True
    then show ?thesis using run un by (simp add: auth_def)
  next
    case False
    define n where "n = failed_attempts ?post"
    have le: "n \<le> 5" using failed_attempts_le by (simp add: n_def)
    have login_iff: "?login \<longleftrightarrow> (\<exists>r. ?post (min n 4) = (Some r, None) \<and> StatusCode r = 200)"
    proof
      assume ?login
      then obtain k r where k: "k < 5" "\<forall>j<k. server_error (?post j)"
          "?post k = (Some r, None)" "StatusCode r = 200" by blast
      have "\<not> server_error (?post k)" using k by (simp add: server_error_def)
      with k have "failed_attempts ?post = k"
        by (intro failed_attempts_unique) auto
      then have "min n 4 = k" using k by (simp add: n_def)
      then show "\<exists>r. ?post (min n 4) = (Some r, None) \<and> StatusCode r = 200" using k by auto
    next
      assume "\<exists>r. ?post (min n 4) = (Some r, None) \<and> StatusCode r = 200"
      then obtain r where r: "?post (min n 4) = (Some r, None)" "StatusCode r = 200" by blast
      have "n \<noteq> 5"
      proof
        assume "n = 5"
        then have "server_error (?post 4)"
          using failed_attempts_all [of 4 ?post] by (simp add: n_def)
        then show False using r \<open>n = 5\<close> by (simp add: server_error_def)
      qed
      then have lt: "n < 5" and m: "min n 4 = n" using le by auto
      have "\<forall>j<n. server_error (?post j)" using failed_attempts_all by (simp add: n_def)
      then show ?login using lt r m by auto
    qed
    show ?thesis
      unfolding login_iff
      using run un False
      by (auto simp: auth_unauthed Let_def n_def [symmetric] split: option.splits prod.splits if_splits)
  qed
next
  assume "isAuthed i"
  then show "isAuthed (fst (snd (AuthWithCredsFromFile L w net i keyFilename authFilename)))"
    by (auto simp: AuthWithCredsFromFile_def auth_def split: prod.splits result.splits)
next
  assume "isAuthed i"
  then show "isAuthed (fst (snd (AuthWithProvideCreds L net i authSource)))"
    by (auto simp: AuthWithProvideCreds_def auth_def split: prod.splits result.splits)
qed

theorem authed_flag_lifecycle_witness:
  "fst (auth flaky_server new_Irdata sample_creds) = Return None \<and>
   \<not> isAuthed new_Irdata \<and>
   isAuthed (fst (snd (auth flaky_server new_Irdata sample_creds))) \<and>
   EncodedPassword sample_creds \<noteq> [] \<and>
   (\<exists>k<5. (\<forall>j<k. server_error (httpClient_Post flaky_server j)) \<and>
      (\<exists>r. httpClient_Post flaky_server k = (Some r, None) \<and> StatusCode r = 200)) \<and>
   (\<exists>g. retryingGet flaky_server = (Some g, None) \<and> StatusCode g = 200)"
proof -
  have n: "\<not> isAuthed new_Irdata" and e: "EncodedPassword sample_creds \<noteq> []"
    by (simp_all add: new_Irdata_def sample_creds_def)
  have run: "auth flaky_server new_Irdata sample_creds =
      (Return None, new_Irdata\<lparr>isAuthed := True\<rparr>,
       retry_events (login_body sample_creds) 5 3 @ [EvPost loginURL (login_body sample_creds), EvRetryingGet testUrl])"
    by (simp add: auth_unauthed [OF n e] failed_attempts_flaky Let_def) (simp add: flaky_server_def)
  show ?thesis
    using authed_flag_lifecycle [of flaky_server new_Irdata sample_creds "Return None" "new_Irdata\<lparr>isAuthed := True\<rparr>"
        "retry_events (login_body sample_creds) 5 3 @ [EvPost loginURL (login_body sample_creds), EvRetryingGet testUrl]"]
      run n e
    by simp
qed

section \<open>Retries and backoff\<close>

lemma retry_events_5:
  "retry_events body 5 k = concat (map (\<lambda>j. [EvPost loginURL body, EvSleep (5 * (int j + 2))]) [0..<k])"
  by (simp add: retry_events_def algebra_simps)

lemma sleeps_append: "sleeps (xs @ ys) = sleeps xs @ sleeps ys"
  by (induction xs rule: sleeps.induct) simp_all

lemma sleeps_retry_events: "sleeps (retry_events body 5 k) = map (\<lambda>j. 5 * (int j + 2)) [0..<k]"
  unfolding retry_events_5 by (induction k) (simp_all add: sleeps_append)

lemma posts_retry_events: "length (filter is_post (retry_events body 5 k)) = k"
  unfolding retry_events_5 by (induction k) simp_all

lemma backoff_table: "k \<le> 5 \<Longrightarrow> map (\<lambda>j. 5 * (int j + 2)) [0..<k] = take k [10, 15, 20, 25, 30]"
proof -
  assume "k \<le> 5"
  then consider "k = 0" | "k = 1" | "k = 2" | "k = 3" | "k = 4" | "k = 5" by linarith
  then show ?thesis
    by cases (simp_all add: upt_rec)
qed

text \<open>
  C4, as the code has it. Let every POST of the call be answered with a response, and let
  \<open>n\<close> count the server errors (status 500 or more) before the first other answer, among
  at most five calls. Then \<^verbatim>\<open>auth\<close> makes \<open>min 5 (n + 1)\<close> POSTs, so five at most; it retries
  after a status of 500 or more only and stops at the first status below 500; and after
  each server error, the fifth included, it decrements \<^verbatim>\<open>retries\<close> and sleeps
  \<^verbatim>\<open>(6 - retries) * 5\<close> seconds: the delays are the first \<open>n\<close> of 10, 15, 20, 25 and 30
  seconds. The trace is exactly these POSTs and sleeps in turn, followed by the verification
  GET if the login was answered with 200.
\<close>

theorem login_retry_policy:
  assumes "\<not> isAuthed i" and "EncodedPassword a \<noteq> []"
    and "\<forall>j<5. fst (httpClient_Post net j) \<noteq> None"
  shows "let n = failed_attempts (httpClient_Post net); tr = snd (snd (auth net i a)) in
           length (filter is_post tr) = min 5 (n + 1) \<and>
           sleeps tr = take n [10, 15, 20, 25, 30] \<and>
           (\<exists>rest. tr = concat (map (\<lambda>j. [EvPost loginURL (login_body a), EvSleep (5 * (int j + 2))]) [0..<n])
                         @ (if n < 5 then [EvPost loginURL (login_body a)] else []) @ rest \<and>
                   (rest = [] \<or> rest = [EvRetryingGet testUrl]))"
proof -
  define n where "n = failed_attempts (httpClient_Post net)"
  define loop where "loop = retry_events (login_body a) 5 n @ (if n < 5 then [EvPost loginURL (login_body a)] else [])"
  have le: "n \<le> 5" using failed_attempts_le by (simp add: n_def)
  have "min n 4 < 5" by simp
  then have some: "fst (httpClient_Post net (min n 4)) \<noteq> None" using assms(3) by blast
  have tr: "snd (snd (auth net i a)) = loop \<or> snd (snd (auth net i a)) = loop @ [EvRetryingGet testUrl]"
    using some
    by (auto simp: auth_unauthed [OF assms(1,2)] Let_def n_def [symmetric] loop_def
             split: option.splits prod.splits)
  have p: "length (filter is_post loop) = min 5 (n + 1)"
    using le by (auto simp: loop_def posts_retry_events)
  have s: "sleeps loop = take n [10, 15, 20, 25, 30]"
    using backoff_table [OF le] by (simp add: loop_def sleeps_append sleeps_retry_events)
  from tr show ?thesis
  proof
    assume e: "snd (snd (auth net i a)) = loop"
    have "\<exists>rest. loop = loop @ rest \<and> (rest = [] \<or> rest = [EvRetryingGet testUrl])" by simp
    then show ?thesis
      unfolding Let_def n_def [symmetric] e using p s
      by (simp add: loop_def retry_events_5)
  next
    assume e: "snd (snd (auth net i a)) = loop @ [EvRetryingGet testUrl]"
    have "\<exists>rest. loop @ [EvRetryingGet testUrl] = loop @ rest \<and> (rest = [] \<or> rest = [EvRetryingGet testUrl])" by simp
    then show ?thesis
      unfolding Let_def n_def [symmetric] e using p s
      by (simp add: loop_def retry_events_5 sleeps_append)
  qed
qed

theorem login_retry_policy_witness:
  "\<not> isAuthed new_Irdata \<and> EncodedPassword sample_creds \<noteq> [] \<and>
   failed_attempts (httpClient_Post flaky_server) = 3 \<and>
   length (filter is_post (snd (snd (auth flaky_server new_Irdata sample_creds)))) = 4 \<and>
   sleeps (snd (snd (auth flaky_server new_Irdata sample_creds))) = [10, 15, 20]"
proof -
  have n: "\<not> isAuthed new_Irdata" and e: "EncodedPassword sample_creds \<noteq> []"
    by (simp_all add: new_Irdata_def sample_creds_def)
  have r: "\<forall>j<5. fst (httpClient_Post flaky_server j) \<noteq> None"
    by (simp add: flaky_server_def)
  show ?thesis
    using login_retry_policy [OF n e r] n e
    by (simp add: failed_attempts_flaky Let_def)
qed

text \<open>
  The delays are not 5, 10, 15, 20 and 25 seconds: against a server that always answers 503
  the five POSTs are followed by sleeps of 10, 15, 20, 25 and 30 seconds.
\<close>

theorem login_backoff_counterexample:
  "sleeps (snd (snd (auth failing_server new_Irdata sample_creds))) = [10, 15, 20, 25, 30] \<and>
   sleeps (snd (snd (auth failing_server new_Irdata sample_creds))) \<noteq> [5, 10, 15, 20, 25] \<and>
   length (filter is_post (snd (snd (auth failing_server new_Irdata sample_creds)))) = 5"
  by (simp add: auth_def login_loop.simps failing_server_def new_Irdata_def sample_creds_def)

section \<open>Transport failures\<close>

text \<open>
  C5. When a login POST of \<^verbatim>\<open>auth\<close> comes back without a response (a transport failure:
  \<^verbatim>\<open>resp\<close> is nil), be it the first or one that follows \<open>k\<close> server errors, the call panics at
  once, on \<^verbatim>\<open>resp.StatusCode\<close>: the failed POST is the last event of the trace, no retry and
  no sleep follow it, and the session is left as it was.
\<close>

theorem auth_transport_failure_aborts:
  assumes "\<not> isAuthed i" and "EncodedPassword a \<noteq> []" and "k < 5"
    and "\<forall>j<k. server_error (httpClient_Post net j)"
    and "fst (httpClient_Post net k) = None"
  shows "auth net i a =
           (Panic NilDereference, i,
            concat (map (\<lambda>j. [EvPost loginURL (login_body a), EvSleep (5 * (int j + 2))]) [0..<k])
              @ [EvPost loginURL (login_body a)])"
proof -
  have "\<not> server_error (httpClient_Post net k)" using assms(5) by (simp add: server_error_def)
  then have n: "failed_attempts (httpClient_Post net) = k"
    using assms(3,4) by (intro failed_attempts_unique) auto
  have m: "min k 4 = k" using assms(3) by simp
  show ?thesis
    using assms(3,5)
    by (auto simp: auth_unauthed [OF assms(1,2)] Let_def n m retry_events_5 split: option.splits prod.splits)
qed

theorem auth_transport_failure_aborts_witness:
  "auth offline_client new_Irdata sample_creds =
     (Panic NilDereference, new_Irdata, [EvPost loginURL (login_body sample_creds)]) \<and>
   auth dropping_server new_Irdata sample_creds =
     (Panic NilDereference, new_Irdata,
      [EvPost loginURL (login_body sample_creds), EvSleep 10, EvPost loginURL (login_body sample_creds)])"
proof -
  have n: "\<not> isAuthed new_Irdata" and e: "EncodedPassword sample_creds \<noteq> []"
    by (simp_all add: new_Irdata_def sample_creds_def)
  have a: "auth offline_client new_Irdata sample_creds =
     (Panic NilDereference, new_Irdata, [EvPost loginURL (login_body sample_creds)])"
    using auth_transport_failure_aborts [OF n e, of 0 offline_client]
    by (simp add: offline_client_def)
  have b: "auth dropping_server new_Irdata sample_creds =
     (Panic NilDereference, new_Irdata,
      [EvPost loginURL (login_body sample_creds), EvSleep 10, EvPost loginURL (login_body sample_creds)])"
    using auth_transport_failure_aborts [OF n e, of 1 dropping_server]
    by (simp add: dropping_server_def server_error_def)
  from a b show ?thesis by simp
qed

section \<open>Base64 decodes what it encodes\<close>

text \<open>
  The four digits of a quantum recombine to its 24 bits, so the strict decoder returns the
  bytes the encoder was given; the encoder emits no line breaks, and its output is long
  enough for the buffer of the decoder to hold the bytes.
\<close>

lemma div_mod_digit:
  fixes q r n :: nat
  assumes "r < n"
  shows "(q * n + r) div n = q" and "(q * n + r) mod n = r"
  using assms by simp_all

lemma sextets_recombine:
  fixes v :: nat
  shows "(v div 262144 mod 64) * 262144 + (v div 4096 mod 64) * 4096 + (v div 64 mod 64) * 64 + v mod 64
         = v mod 16777216"
proof -
  have d1: "v div 4096 = v div 64 div 64"
    using div_mult2_eq [of v 64 64] by simp
  have d2: "v div 262144 = v div 64 div 64 div 64"
    using div_mult2_eq [of v 4096 64] by (simp add: d1)
  have a: "v mod 16777216 = 64 * (v div 64 mod 262144) + v mod 64"
    using mod_mult2_eq [of v 64 262144] by simp
  have b: "v div 64 mod 262144 = 64 * (v div 64 div 64 mod 4096) + v div 64 mod 64"
    using mod_mult2_eq [of "v div 64" 64 4096] by simp
  have c: "v div 64 div 64 mod 4096 = 64 * (v div 64 div 64 div 64 mod 64) + v div 64 div 64 mod 64"
    using mod_mult2_eq [of "v div 64 div 64" 64 64] by simp
  show ?thesis
    unfolding a b c d1 d2 by simp
qed

lemma of_char_less: "(of_char c :: nat) < 256"
proof -
  have "(of_char c :: nat) \<in> range of_char" by simp
  then show ?thesis unfolding range_nat_of_char by simp
qed

lemma bytes_split:
  fixes a b c :: nat
  assumes "b < 256" and "c < 256"
  shows "(a * 65536 + b * 256 + c) div 65536 = a"
    and "(a * 65536 + b * 256 + c) div 256 mod 256 = b"
    and "(a * 65536 + b * 256 + c) mod 256 = c"
proof -
  have lo: "b * 256 + c < 65536" using assms by simp
  have "(a * 65536 + (b * 256 + c)) div 65536 = a"
    using lo by (rule div_mod_digit)
  then show "(a * 65536 + b * 256 + c) div 65536 = a" by (simp add: add.assoc)
  have e: "a * 65536 + b * 256 + c = (a * 256 + b) * 256 + c" by simp
  have "((a * 256 + b) * 256 + c) div 256 = a * 256 + b"
    using assms(2) by (rule div_mod_digit)
  moreover have "(a * 256 + b) mod 256 = b"
    using assms(1) by (rule div_mod_digit)
  ultimately show "(a * 65536 + b * 256 + c) div 256 mod 256 = b" by (simp only: e)
  have "((a * 256 + b) * 256 + c) mod 256 = c"
    using assms(2) by (rule div_mod_digit)
  then show "(a * 65536 + b * 256 + c) mod 256 = c" by (simp only: e)
qed

lemma encodeStd_length: "length encodeStd = 64"
  by (simp add: encodeStd_def)

lemma encodeStd_plain:
  assumes "i < 64"
  shows "encodeStd ! i \<noteq> CHR 0x0A" and "encodeStd ! i \<noteq> CHR 0x0D" and "encodeStd ! i \<noteq> CHR ''=''"
proof -
  have "encodeStd ! i \<in> set encodeStd"
    using assms by (simp add: encodeStd_length)
  moreover have "CHR 0x0A \<notin> set encodeStd" "CHR 0x0D \<notin> set encodeStd" "CHR ''='' \<notin> set encodeStd"
    by (simp_all add: encodeStd_def)
  ultimately show "encodeStd ! i \<noteq> CHR 0x0A" and "encodeStd ! i \<noteq> CHR 0x0D" and "encodeStd ! i \<noteq> CHR ''=''"
    by auto
qed

lemma decodeMap_pad: "decodeMap (CHR ''='') = None"
  by (simp add: decodeMap_def encodeStd_def upt_rec)

lemma decodeMap_encodeStd: "i < 64 \<Longrightarrow> decodeMap (encodeStd ! i) = Some i"
proof -
  have d: "distinct encodeStd" by (simp add: encodeStd_def)
  assume "i < 64"
  then have "(encodeStd ! i, [0..<64] ! i) \<in> set (zip encodeStd [0..<64])"
    by (auto simp: set_zip encodeStd_length)
  then show ?thesis
    unfolding decodeMap_def using d \<open>i < 64\<close>
    by (simp add: encodeStd_length)
qed

lemma decode_quantum3:
  fixes A B C :: nat
  assumes "A < 256" "B < 256" "C < 256"
  defines "v \<equiv> A * 65536 + B * 256 + C"
  defines "x \<equiv> (v div 262144 mod 64) * 262144 + (v div 4096 mod 64) * 4096 + (v div 64 mod 64) * 64 + v mod 64"
  shows "char_of (x div 65536) = char_of A" "char_of (x div 256) = char_of B" "char_of x = char_of C"
proof -
  have "v < 16777216" using assms(1-3) by (simp add: v_def)
  then have x: "x = v" unfolding x_def sextets_recombine by simp
  show "char_of (x div 65536) = char_of A"
    unfolding x v_def using assms(2,3) by (simp add: bytes_split)
  have "char_of (x div 256 mod 256) = char_of B"
    unfolding x v_def using assms(2,3) by (simp only: bytes_split)
  then show "char_of (x div 256) = char_of B" by (simp only: char_of_mod_256)
  have "char_of (x mod 256) = char_of C"
    unfolding x v_def using assms(2,3) by (simp only: bytes_split)
  then show "char_of x = char_of C" by (simp only: char_of_mod_256)
qed

lemma decodeQuanta_full:
  assumes "s0 < 64" "s1 < 64" "s2 < 64" "s3 < 64"
  shows "decodeQuanta (encodeStd ! s0 # encodeStd ! s1 # encodeStd ! s2 # encodeStd ! s3 # rest) =
     (case decodeQuanta rest of
        Inl e \<Rightarrow> Inl e
      | Inr bs \<Rightarrow> Inr (char_of ((s0 * 262144 + s1 * 4096 + s2 * 64 + s3) div 65536)
                     # char_of ((s0 * 262144 + s1 * 4096 + s2 * 64 + s3) div 256)
                     # char_of (s0 * 262144 + s1 * 4096 + s2 * 64 + s3) # bs))"
  using assms by (simp only: decodeQuanta.simps decodeMap_encodeStd prod.case option.case Let_def)

lemma decodeQuanta_pad1:
  assumes "s0 < 64" "s1 < 64" "s2 < 64" "s2 mod 4 = 0"
  shows "decodeQuanta [encodeStd ! s0, encodeStd ! s1, encodeStd ! s2, CHR ''=''] =
     Inr [char_of ((s0 * 262144 + s1 * 4096 + s2 * 64) div 65536),
          char_of ((s0 * 262144 + s1 * 4096 + s2 * 64) div 256)]"
  using assms
  by (simp only: decodeQuanta.simps decodeMap_encodeStd decodeMap_pad prod.case option.case Let_def
        simp_thms if_True)

lemma decodeQuanta_pad2:
  assumes "s0 < 64" "s1 < 64" "s1 mod 16 = 0"
  shows "decodeQuanta [encodeStd ! s0, encodeStd ! s1, CHR ''='', CHR ''=''] =
     Inr [char_of ((s0 * 262144 + s1 * 4096) div 65536)]"
  using assms
  by (simp only: decodeQuanta.simps decodeMap_encodeStd decodeMap_pad prod.case option.case Let_def
        simp_thms if_True)

lemma quantum3:
  fixes a b c :: char
  defines "v \<equiv> (of_char a :: nat) * 65536 + of_char b * 256 + of_char c"
  defines "x \<equiv> (v div 262144 mod 64) * 262144 + (v div 4096 mod 64) * 4096 + (v div 64 mod 64) * 64 + v mod 64"
  shows "char_of (x div 65536) = a" "char_of (x div 256) = b" "char_of x = c"
proof -
  note q = decode_quantum3 [OF of_char_less [of a] of_char_less [of b] of_char_less [of c]]
  show "char_of (x div 65536) = a" unfolding x_def v_def using q(1) by (simp only: char_of_char)
  show "char_of (x div 256) = b" unfolding x_def v_def using q(2) by (simp only: char_of_char)
  show "char_of x = c" unfolding x_def v_def using q(3) by (simp only: char_of_char)
qed

lemma quantum2:
  fixes a b :: char
  defines "v \<equiv> (of_char a :: nat) * 65536 + of_char b * 256"
  defines "x \<equiv> (v div 262144 mod 64) * 262144 + (v div 4096 mod 64) * 4096 + (v div 64 mod 64) * 64"
  shows "char_of (x div 65536) = a" "char_of (x div 256) = b" "v div 64 mod 64 mod 4 = 0"
proof -
  have e: "v = (of_char a * 1024 + of_char b * 4) * 64" by (simp add: v_def)
  have z: "v mod 64 = 0" unfolding e by (rule mod_mult_self2_is_0)
  have e4: "v div 64 = (of_char a * 256 + of_char b) * 4" unfolding e by simp
  show "v div 64 mod 64 mod 4 = 0"
    unfolding e4 by (simp add: mod_mod_cancel)
  have "v < 16777216" using of_char_less [of a] of_char_less [of b] unfolding v_def by linarith
  then have "x + v mod 64 = v" unfolding x_def using sextets_recombine [of v] by simp
  then have x: "x = of_char a * 65536 + of_char b * 256 + 0" using z by (simp add: v_def)
  have "x div 65536 = of_char a"
    unfolding x by (rule bytes_split) (simp_all add: of_char_less)
  then show "char_of (x div 65536) = a" by simp
  have "x div 256 mod 256 = of_char b"
    unfolding x by (rule bytes_split) (simp_all add: of_char_less)
  then have "char_of (x div 256 mod 256) = b" by simp
  then show "char_of (x div 256) = b" by (simp only: char_of_mod_256)
qed

lemma quantum1:
  fixes a :: char
  defines "v \<equiv> (of_char a :: nat) * 65536"
  defines "x \<equiv> (v div 262144 mod 64) * 262144 + (v div 4096 mod 64) * 4096"
  shows "char_of (x div 65536) = a" "v div 4096 mod 64 mod 16 = 0"
proof -
  have e: "v = (of_char a * 16) * 4096" by (simp add: v_def)
  have e': "v = (of_char a * 1024) * 64" by (simp add: v_def)
  have z: "v mod 64 = 0" unfolding e' by (rule mod_mult_self2_is_0)
  have e6: "v div 64 = (of_char a * 16) * 64" unfolding e' by simp
  have z2: "v div 64 mod 64 = 0" unfolding e6 by (rule mod_mult_self2_is_0)
  have e4: "v div 4096 = of_char a * 16" unfolding e by simp
  show "v div 4096 mod 64 mod 16 = 0"
    unfolding e4 by (simp add: mod_mod_cancel)
  have "v < 16777216" using of_char_less [of a] unfolding v_def by linarith
  then have "x + (v div 64 mod 64) * 64 + v mod 64 = v"
    unfolding x_def using sextets_recombine [of v] by simp
  then have x: "x = of_char a * 65536 + 0 * 256 + 0" using z z2 by (simp add: v_def)
  have "x div 65536 = of_char a"
    unfolding x by (rule bytes_split) simp_all
  then show "char_of (x div 65536) = a" by simp
qed

lemma sextet_less: "(n::nat) mod 64 < 64"
  by simp

lemma decodeQuanta_Encode: "decodeQuanta (base64_EncodeToString bs) = Inr bs"
proof (induction bs rule: base64_EncodeToString.induct)
  case (1 a b c rest)
  show ?case
    by (simp only: base64_EncodeToString.simps Let_def append.simps
          decodeQuanta_full [OF sextet_less sextet_less sextet_less sextet_less]
          "1.IH" sum.case quantum3)
next
  case (2 a b)
  show ?case
    by (simp only: base64_EncodeToString.simps Let_def
          decodeQuanta_pad1 [OF sextet_less sextet_less sextet_less quantum2(3)] quantum2)
next
  case (3 a)
  show ?case
    by (simp only: base64_EncodeToString.simps Let_def
          decodeQuanta_pad2 [OF sextet_less sextet_less quantum1(2)] quantum1)
next
  case 4
  show ?case by simp
qed

lemma base64_Encode_plain:
  "filter (\<lambda>c. c \<noteq> CHR 0x0A \<and> c \<noteq> CHR 0x0D) (base64_EncodeToString bs) = base64_EncodeToString bs"
  by (induction bs rule: base64_EncodeToString.induct) (simp_all add: Let_def encodeStd_plain)

lemma base64_roundtrip: "base64_DecodeString (base64_EncodeToString bs) = Inr bs"
  by (simp add: base64_DecodeString_def base64_Encode_plain decodeQuanta_Encode)

lemma base64_Encode_length: "length (base64_EncodeToString bs) = (length bs + 2) div 3 * 4"
proof (induction bs rule: base64_EncodeToString.induct)
  case (1 a b c rest)
  have "(length (a # b # c # rest) + 2) div 3 = Suc ((length rest + 2) div 3)" by simp
  then show ?case using "1.IH" by (simp add: Let_def)
qed (simp_all add: Let_def)

lemma base64_capacity: "length bs \<le> base64_DecodedLen (length (base64_EncodeToString bs))"
  unfolding base64_DecodedLen_def base64_Encode_length by simp

section \<open>Erasing the key\<close>

text \<open>The loop of \<^verbatim>\<open>shred\<close> leaves a key of the same length, every byte \<^verbatim>\<open>0x69\<close>.\<close>

lemma shred_from_eq:
  "i \<le> length key \<Longrightarrow> shred_from i key = take i key @ replicate (length key - i) (CHR 0x69)"
proof (induction i key rule: shred_from.induct)
  case (1 i key)
  show ?case
  proof (cases "i < length key")
    case True
    have "shred_from i key = shred_from (Suc i) (key[i := CHR 0x69])"
      using True by (subst shred_from.simps) simp
    also have "\<dots> = take (Suc i) (key[i := CHR 0x69]) @ replicate (length key - Suc i) (CHR 0x69)"
      using "1.IH" [OF True] True by simp
    also have "\<dots> = take i key @ replicate (length key - i) (CHR 0x69)"
      using True by (simp add: take_Suc_conv_app_nth Suc_diff_Suc [symmetric])
    finally show ?thesis .
  next
    case False
    then show ?thesis using "1.prems" by (subst shred_from.simps) simp
  qed
qed

lemma shred_eq: "shred key = replicate (length key) (CHR 0x69)"
  by (simp add: shred_def shred_from_eq)

section \<open>Save and load, once the key is read\<close>

text \<open>
  \<^verbatim>\<open>getKey\<close> returns a key exactly when the key file exists, has the permission bits
  \<^verbatim>\<open>0400\<close> and holds valid base64. What \<^verbatim>\<open>writeCreds\<close> and \<^verbatim>\<open>readCreds\<close> do from there
  on, step by step, with the library calls of the model unfolded.
\<close>

lemma getKey_Return:
  "getKey w keyFilename = (Return key, ktr) \<longleftrightarrow>
     (\<exists>f. lookup_file w keyFilename = Inr f \<and> Mode f AND ModePerm = 256 \<and>
          base64_DecodeString (Content f) = Inr key) \<and>
     ktr = [EvStat keyFilename, EvReadFile keyFilename]"
  by (auto simp: getKey_def os_Stat_def os_ReadFile_def split: sum.splits)

lemma writeCreds_with_key:
  assumes "getKey w keyFilename = (Return key, ktr)"
  shows "writeCreds L w keyFilename authFilename authData =
     (let tr1 = ktr @ [EvNewCipher key, EvShred (replicate (length key) (CHR 0x69))] in
      if \<not> (length key = 16 \<or> length key = 24 \<or> length key = 32) then
        (Panic (LogPanic (if length key = 0 then ErrorsNew ''key must be 16, 24, or 32 bytes long''
                          else KeySizeError (length key))), w, tr1)
      else
        (let tr2 = tr1 @ [EvNewGCM, EvRandRead 12] in
         case entropy_err w of
           Some err \<Rightarrow> (Panic (LogPanic err), w, tr2)
         | None \<Rightarrow>
             (case gob_Encode L authData of
                Inl err \<Rightarrow> (Panic (LogPanic err), w, tr2)
              | Inr buf \<Rightarrow>
                  if length buf > 68719476704 then (Panic MessageTooLarge, w, tr2 @ [EvSeal])
                  else
                    (let nonce = map (entropy w) [0..<12];
                         base64data = base64_EncodeToString (nonce @ aes_gcm_seal L key nonce buf additionalContext);
                         tr3 = tr2 @ [EvSeal, EvWriteFile authFilename base64data] in
                     case os_WriteFile w authFilename base64data ModePerm of
                       (Some err, w') \<Rightarrow> (Panic (LogPanic err), w', tr3)
                     | (None, w') \<Rightarrow> (Return (), w', tr3)))))"
  using assms
  by (auto simp: writeCreds_def Let_def aes_NewCipher_def errors_Is_def cipher_NewGCM_def BlockSize_def
        NonceSize_def makeNonce_def rand_Read_def gcm_Seal_def shred_eq
      split: option.splits sum.splits prod.splits)

lemma readCreds_with_key:
  assumes "getKey w keyFilename = (Return key, ktr)"
  shows "readCreds L w keyFilename authFilename =
     (let tr1 = ktr @ [EvNewCipher key, EvShred (replicate (length key) (CHR 0x69))] in
      if \<not> (length key = 16 \<or> length key = 24 \<or> length key = 32) then
        (Panic (LogPanic (KeySizeError (length key))), tr1)
      else
        (let tr2 = tr1 @ [EvNewGCM, EvReadFile authFilename] in
         case os_ReadFile w authFilename of
           Inl err \<Rightarrow> (Panic (LogPanic err), tr2)
         | Inr base64data \<Rightarrow>
             (case base64_DecodeString base64data of
                Inl err \<Rightarrow> (Panic (LogPanic err), tr2)
              | Inr data \<Rightarrow>
                  if base64_DecodedLen (length base64data) < 12 then
                    (Panic (SliceHighOutOfRange 12 (base64_DecodedLen (length base64data))), tr2)
                  else if length data < 12 then (Panic (SliceLowOutOfRange 12 (length data)), tr2)
                  else
                    (case aes_gcm_open L key (take 12 data) (drop 12 data) additionalContext of
                       None \<Rightarrow> (Panic (LogPanic ErrOpen), tr2 @ [EvOpen])
                     | Some authGob \<Rightarrow>
                         (case gob_Decode L authGob of
                            Inl err \<Rightarrow> (Panic (LogPanic err), tr2 @ [EvOpen])
                          | Inr authData \<Rightarrow> (Return authData, tr2 @ [EvOpen]))))))"
  using assms
  by (auto simp: readCreds_def Let_def aes_NewCipher_def cipher_NewGCM_def BlockSize_def
        NonceSize_def gcm_Open_def shred_eq
      split: option.splits sum.splits prod.splits)

lemma toy_aead_roundtrip: "aead_roundtrip toy_lib"
  by (simp add: aead_roundtrip_def toy_lib_def toy_seal_def toy_open_def Let_def)

lemma toy_gob_roundtrip: "gob_roundtrip toy_lib"
proof -
  have "takeWhile (\<lambda>c. c = CHR 0x01) (replicate n (CHR 0x01) @ CHR 0x00 # rest) = replicate n (CHR 0x01)"
    for n rest
    by (induction n) simp_all
  then show ?thesis
    by (auto simp: gob_roundtrip_def toy_lib_def toy_gob_Encode_def toy_gob_Decode_def Let_def)
qed

lemma encode_sample_key: "base64_EncodeToString ''0123456789abcdef'' = ''MDEyMzQ1Njc4OWFiY2RlZg==''"
  by (simp add: encodeStd_def Let_def)

lemma encode_short_key: "base64_EncodeToString ''short'' = ''c2hvcnQ=''"
  by (simp add: encodeStd_def Let_def)

lemma encode_tiny: "base64_EncodeToString [CHR 0x00, CHR 0x00, CHR 0x00] = ''AAAA''"
  by (simp add: encodeStd_def Let_def)

lemma decode_sample_key: "base64_DecodeString ''MDEyMzQ1Njc4OWFiY2RlZg=='' = Inr ''0123456789abcdef''"
  using base64_roundtrip [of "''0123456789abcdef''"] by (simp only: encode_sample_key)

lemma decode_short_key: "base64_DecodeString ''c2hvcnQ='' = Inr ''short''"
  using base64_roundtrip [of "''short''"] by (simp only: encode_short_key)

lemma decode_tiny: "base64_DecodeString ''AAAA'' = Inr [CHR 0x00, CHR 0x00, CHR 0x00]"
  using base64_roundtrip [of "[CHR 0x00, CHR 0x00, CHR 0x00]"] by (simp only: encode_tiny)

lemma decode_blank:
  "base64_DecodeString (''AAAA'' @ replicate 12 (CHR 0x0A)) = Inr [CHR 0x00, CHR 0x00, CHR 0x00]"
proof -
  have "filter (\<lambda>c. c \<noteq> CHR 0x0A \<and> c \<noteq> CHR 0x0D) (''AAAA'' @ replicate 12 (CHR 0x0A)) = ''AAAA''"
    by simp
  then show ?thesis
    using decode_tiny by (simp only: base64_DecodeString_def) simp
qed

lemma getKey_sample:
  "getKey sample_world ''key.b64'' = (Return ''0123456789abcdef'', [EvStat ''key.b64'', EvReadFile ''key.b64''])"
  by (simp add: getKey_Return lookup_file_def sample_world_def ModePerm_def decode_sample_key)

lemma getKey_short:
  "getKey sample_world ''short.b64'' = (Return ''short'', [EvStat ''short.b64'', EvReadFile ''short.b64''])"
  by (simp add: getKey_Return lookup_file_def sample_world_def ModePerm_def decode_short_key)

lemma lookup_sample:
  "lookup_file sample_world ''key.b64'' = Inr \<lparr>Mode = 0x100, Content = ''MDEyMzQ1Njc4OWFiY2RlZg==''\<rparr>"
  "lookup_file sample_world ''open.b64'' = Inr \<lparr>Mode = 0x1A4, Content = ''MDEyMzQ1Njc4OWFiY2RlZg==''\<rparr>"
  "lookup_file sample_world ''short.b64'' = Inr \<lparr>Mode = 0x100, Content = ''c2hvcnQ=''\<rparr>"
  "lookup_file sample_world ''tiny.creds'' = Inr \<lparr>Mode = 0x1A4, Content = ''AAAA''\<rparr>"
  "lookup_file sample_world ''blank.creds'' = Inr \<lparr>Mode = 0x1A4, Content = ''AAAA'' @ replicate 12 (CHR 0x0A)\<rparr>"
  by (simp_all add: lookup_file_def sample_world_def)

section \<open>The key file is checked\<close>

text \<open>
  C6. Key loading in save and load is \<^verbatim>\<open>getKey\<close> followed by \<^verbatim>\<open>aes.NewCipher\<close>. When the
  permission bits of the key file are not exactly \<^verbatim>\<open>0400\<close>, \<^verbatim>\<open>getKey\<close> panics right after
  \<^verbatim>\<open>os.Stat\<close>: \<^verbatim>\<open>writeCreds\<close> and \<^verbatim>\<open>readCreds\<close> abort, the trace holds the stat alone, so
  the file is not even read and no cipher operation is attempted, and nothing is written.
  When the key file is in order but the decoded key is not 16, 24 or 32 bytes long,
  \<^verbatim>\<open>aes.NewCipher\<close> refuses it and both operations abort with its error (\<^verbatim>\<open>writeCreds\<close>
  with its own message when the key is empty), after the key has been erased; again
  nothing is written.
\<close>

theorem key_file_rejected:
  "(lookup_file w keyFilename = Inr f \<and> Mode f AND ModePerm \<noteq> 256 \<longrightarrow>
      writeCreds L w keyFilename authFilename authData =
        (Panic (LogPanicf (''key file '' @ keyFilename @ '' must have perms set to 0400'')), w,
         [EvStat keyFilename]) \<and>
      readCreds L w keyFilename authFilename =
        (Panic (LogPanicf (''key file '' @ keyFilename @ '' must have perms set to 0400'')),
         [EvStat keyFilename])) \<and>
   (lookup_file w keyFilename = Inr f \<and> Mode f AND ModePerm = 256 \<and>
    base64_DecodeString (Content f) = Inr key \<and>
    \<not> (length key = 16 \<or> length key = 24 \<or> length key = 32) \<longrightarrow>
      writeCreds L w keyFilename authFilename authData =
        (Panic (LogPanic (if length key = 0 then ErrorsNew ''key must be 16, 24, or 32 bytes long''
                          else KeySizeError (length key))), w,
         [EvStat keyFilename, EvReadFile keyFilename, EvNewCipher key,
          EvShred (replicate (length key) (CHR 0x69))]) \<and>
      readCreds L w keyFilename authFilename =
        (Panic (LogPanic (KeySizeError (length key))),
         [EvStat keyFilename, EvReadFile keyFilename, EvNewCipher key,
          EvShred (replicate (length key) (CHR 0x69))]))"
proof (intro conjI impI)
  assume a: "lookup_file w keyFilename = Inr f \<and> Mode f AND ModePerm \<noteq> 256"
  then have k: "getKey w keyFilename =
      (Panic (LogPanicf (''key file '' @ keyFilename @ '' must have perms set to 0400'')), [EvStat keyFilename])"
    by (simp add: getKey_def os_Stat_def)
  show "writeCreds L w keyFilename authFilename authData =
        (Panic (LogPanicf (''key file '' @ keyFilename @ '' must have perms set to 0400'')), w,
         [EvStat keyFilename])"
    by (simp add: writeCreds_def k)
  show "readCreds L w keyFilename authFilename =
        (Panic (LogPanicf (''key file '' @ keyFilename @ '' must have perms set to 0400'')),
         [EvStat keyFilename])"
    by (simp add: readCreds_def k)
next
  assume a: "lookup_file w keyFilename = Inr f \<and> Mode f AND ModePerm = 256 \<and>
    base64_DecodeString (Content f) = Inr key \<and>
    \<not> (length key = 16 \<or> length key = 24 \<or> length key = 32)"
  then have k: "getKey w keyFilename = (Return key, [EvStat keyFilename, EvReadFile keyFilename])"
    by (auto simp: getKey_Return)
  show "writeCreds L w keyFilename authFilename authData =
        (Panic (LogPanic (if length key = 0 then ErrorsNew ''key must be 16, 24, or 32 bytes long''
                          else KeySizeError (length key))), w,
         [EvStat keyFilename, EvReadFile keyFilename, EvNewCipher key,
          EvShred (replicate (length key) (CHR 0x69))])"
    using a by (simp add: writeCreds_with_key [OF k])
  show "readCreds L w keyFilename authFilename =
        (Panic (LogPanic (KeySizeError (length key))),
         [EvStat keyFilename, EvReadFile keyFilename, EvNewCipher key,
          EvShred (replicate (length key) (CHR 0x69))])"
    using a by (simp add: readCreds_with_key [OF k])
qed

theorem key_file_rejected_witness:
  "writeCreds toy_lib sample_world ''open.b64'' ''creds.b64'' sample_creds =
     (Panic (LogPanicf ''key file open.b64 must have perms set to 0400''), sample_world, [EvStat ''open.b64'']) \<and>
   readCreds toy_lib sample_world ''open.b64'' ''creds.b64'' =
     (Panic (LogPanicf ''key file open.b64 must have perms set to 0400''), [EvStat ''open.b64'']) \<and>
   writeCreds toy_lib sample_world ''short.b64'' ''creds.b64'' sample_creds =
     (Panic (LogPanic (KeySizeError 5)), sample_world,
      [EvStat ''short.b64'', EvReadFile ''short.b64'', EvNewCipher ''short'', EvShred ''iiiii'']) \<and>
   readCreds toy_lib sample_world ''short.b64'' ''creds.b64'' =
     (Panic (LogPanic (KeySizeError 5)),
      [EvStat ''short.b64'', EvReadFile ''short.b64'', EvNewCipher ''short'', EvShred ''iiiii''])"
proof -
  have a: "lookup_file sample_world ''open.b64'' = Inr \<lparr>Mode = 0x1A4, Content = ''MDEyMzQ1Njc4OWFiY2RlZg==''\<rparr> \<and>
           Mode \<lparr>Mode = 0x1A4, Content = ''MDEyMzQ1Njc4OWFiY2RlZg==''\<rparr> AND ModePerm \<noteq> 256"
    by (simp add: lookup_sample ModePerm_def)
  have b: "lookup_file sample_world ''short.b64'' = Inr \<lparr>Mode = 0x100, Content = ''c2hvcnQ=''\<rparr> \<and>
           Mode \<lparr>Mode = 0x100, Content = ''c2hvcnQ=''\<rparr> AND ModePerm = 256 \<and>
           base64_DecodeString (Content \<lparr>Mode = 0x100, Content = ''c2hvcnQ=''\<rparr>) = Inr ''short'' \<and>
           \<not> (length ''short'' = 16 \<or> length ''short'' = 24 \<or> length ''short'' = 32)"
    by (simp add: lookup_sample ModePerm_def decode_short_key)
  note t1 = key_file_rejected [where w = sample_world and keyFilename = "''open.b64''" and L = toy_lib
      and f = "\<lparr>Mode = 0x1A4, Content = ''MDEyMzQ1Njc4OWFiY2RlZg==''\<rparr>"
      and authFilename = "''creds.b64''" and authData = sample_creds]
  note t2 = key_file_rejected [where w = sample_world and keyFilename = "''short.b64''" and L = toy_lib
      and f = "\<lparr>Mode = 0x100, Content = ''c2hvcnQ=''\<rparr>" and key = "''short''"
      and authFilename = "''creds.b64''" and authData = sample_creds]
  from t1 a have p: "writeCreds toy_lib sample_world ''open.b64'' ''creds.b64'' sample_creds =
     (Panic (LogPanicf (''key file '' @ ''open.b64'' @ '' must have perms set to 0400'')), sample_world, [EvStat ''open.b64'']) \<and>
   readCreds toy_lib sample_world ''open.b64'' ''creds.b64'' =
     (Panic (LogPanicf (''key file '' @ ''open.b64'' @ '' must have perms set to 0400'')), [EvStat ''open.b64''])"
    by blast
  from t2 b have q: "writeCreds toy_lib sample_world ''short.b64'' ''creds.b64'' sample_creds =
        (Panic (LogPanic (if length ''short'' = 0 then ErrorsNew ''key must be 16, 24, or 32 bytes long''
                          else KeySizeError (length ''short''))), sample_world,
         [EvStat ''short.b64'', EvReadFile ''short.b64'', EvNewCipher ''short'',
          EvShred (replicate (length ''short'') (CHR 0x69))]) \<and>
      readCreds toy_lib sample_world ''short.b64'' ''creds.b64'' =
        (Panic (LogPanic (KeySizeError (length ''short''))),
         [EvStat ''short.b64'', EvReadFile ''short.b64'', EvNewCipher ''short'',
          EvShred (replicate (length ''short'') (CHR 0x69))])"
    by blast
  have r: "replicate (length ''short'') (CHR 0x69) = ''iiiii''" by (simp add: numeral_eq_Suc)
  from p q show ?thesis by (simp add: r)
qed

section \<open>The key is erased at once\<close>

text \<open>
  C7. In \<^verbatim>\<open>writeCreds\<close> and in \<^verbatim>\<open>readCreds\<close> alike, once \<^verbatim>\<open>getKey\<close> has returned the key, the
  call of \<^verbatim>\<open>aes.NewCipher\<close> on it is followed at once, before anything else happens, by the
  erasure of the key: every byte of the key's memory is then \<^verbatim>\<open>0x69\<close>, which is not zero.
  This is so whether the cipher was constructed or not; when it was not, the erasure is the
  last event before the panic.
\<close>

theorem key_erased_after_cipher_setup:
  assumes "getKey w keyFilename = (Return key, ktr)"
  shows "shred key = replicate (length key) (CHR 0x69) \<and> CHR 0x69 \<noteq> CHR 0x00 \<and>
         (\<exists>rest. snd (snd (writeCreds L w keyFilename authFilename authData)) =
                   ktr @ [EvNewCipher key, EvShred (replicate (length key) (CHR 0x69))] @ rest \<and>
                 (\<forall>err. aes_NewCipher key = Inl err \<longrightarrow> rest = [])) \<and>
         (\<exists>rest. snd (readCreds L w keyFilename authFilename) =
                   ktr @ [EvNewCipher key, EvShred (replicate (length key) (CHR 0x69))] @ rest \<and>
                 (\<forall>err. aes_NewCipher key = Inl err \<longrightarrow> rest = []))"
proof (intro conjI)
  show "shred key = replicate (length key) (CHR 0x69)" by (rule shred_eq)
  show "CHR 0x69 \<noteq> CHR 0x00" by simp
  show "\<exists>rest. snd (snd (writeCreds L w keyFilename authFilename authData)) =
                   ktr @ [EvNewCipher key, EvShred (replicate (length key) (CHR 0x69))] @ rest \<and>
                 (\<forall>err. aes_NewCipher key = Inl err \<longrightarrow> rest = [])"
    by (auto simp: writeCreds_with_key [OF assms] Let_def aes_NewCipher_def
             split: option.splits sum.splits prod.splits)
  show "\<exists>rest. snd (readCreds L w keyFilename authFilename) =
                   ktr @ [EvNewCipher key, EvShred (replicate (length key) (CHR 0x69))] @ rest \<and>
                 (\<forall>err. aes_NewCipher key = Inl err \<longrightarrow> rest = [])"
    by (auto simp: readCreds_with_key [OF assms] Let_def aes_NewCipher_def
             split: option.splits sum.splits prod.splits)
qed

theorem key_erased_after_cipher_setup_witness:
  "getKey sample_world ''short.b64'' = (Return ''short'', [EvStat ''short.b64'', EvReadFile ''short.b64'']) \<and>
   shred ''short'' = ''iiiii'' \<and>
   snd (snd (writeCreds toy_lib sample_world ''short.b64'' ''creds.b64'' sample_creds)) =
     [EvStat ''short.b64'', EvReadFile ''short.b64'', EvNewCipher ''short'', EvShred ''iiiii''] \<and>
   snd (readCreds toy_lib sample_world ''short.b64'' ''creds.b64'') =
     [EvStat ''short.b64'', EvReadFile ''short.b64'', EvNewCipher ''short'', EvShred ''iiiii''] \<and>
   getKey sample_world ''key.b64'' = (Return ''0123456789abcdef'', [EvStat ''key.b64'', EvReadFile ''key.b64'']) \<and>
   shred ''0123456789abcdef'' = ''iiiiiiiiiiiiiiii'' \<and>
   take 4 (snd (snd (writeCreds toy_lib sample_world ''key.b64'' ''creds.b64'' sample_creds))) =
     [EvStat ''key.b64'', EvReadFile ''key.b64'', EvNewCipher ''0123456789abcdef'', EvShred ''iiiiiiiiiiiiiiii''] \<and>
   take 4 (snd (readCreds toy_lib sample_world ''key.b64'' ''creds.b64'')) =
     [EvStat ''key.b64'', EvReadFile ''key.b64'', EvNewCipher ''0123456789abcdef'', EvShred ''iiiiiiiiiiiiiiii'']"
proof -
  have s: "aes_NewCipher ''short'' = Inl (KeySizeError 5)" by (simp add: aes_NewCipher_def)
  have r: "replicate (length ''short'') (CHR 0x69) = ''iiiii''"
    "replicate (length ''0123456789abcdef'') (CHR 0x69) = ''iiiiiiiiiiiiiiii''"
    by (simp_all add: numeral_eq_Suc)
  note t1 = key_erased_after_cipher_setup [OF getKey_short, of toy_lib "''creds.b64''" sample_creds]
  note t2 = key_erased_after_cipher_setup [OF getKey_sample, of toy_lib "''creds.b64''" sample_creds]
  from t1 s have "shred ''short'' = ''iiiii'' \<and>
    snd (snd (writeCreds toy_lib sample_world ''short.b64'' ''creds.b64'' sample_creds)) =
     [EvStat ''short.b64'', EvReadFile ''short.b64'', EvNewCipher ''short'', EvShred ''iiiii''] \<and>
    snd (readCreds toy_lib sample_world ''short.b64'' ''creds.b64'') =
     [EvStat ''short.b64'', EvReadFile ''short.b64'', EvNewCipher ''short'', EvShred ''iiiii'']"
    unfolding r by auto
  moreover from t2 have "shred ''0123456789abcdef'' = ''iiiiiiiiiiiiiiii'' \<and>
    take 4 (snd (snd (writeCreds toy_lib sample_world ''key.b64'' ''creds.b64'' sample_creds))) =
     [EvStat ''key.b64'', EvReadFile ''key.b64'', EvNewCipher ''0123456789abcdef'', EvShred ''iiiiiiiiiiiiiiii''] \<and>
    take 4 (snd (readCreds toy_lib sample_world ''key.b64'' ''creds.b64'')) =
     [EvStat ''key.b64'', EvReadFile ''key.b64'', EvNewCipher ''0123456789abcdef'', EvShred ''iiiiiiiiiiiiiiii'']"
    unfolding r by auto
  ultimately show ?thesis using getKey_short getKey_sample by simp
qed

section \<open>A credential file shorter than a nonce\<close>

text \<open>
  C10. Let the key be in order and the credential file hold valid base64 that decodes to
  fewer than 12 bytes, the nonce size of GCM. Then \<^verbatim>\<open>readCreds\<close> panics on a slice
  expression, before \<^verbatim>\<open>Open\<close> is called: on \<^verbatim>\<open>data[:12]\<close> when the capacity of the decoded
  buffer is below 12, on \<^verbatim>\<open>data[12:]\<close> otherwise. It is a runtime panic, not the error of a
  failed decode or of a failed authentication. Such files exist: \<^verbatim>\<open>AAAA\<close> is one, and
  \<^verbatim>\<open>AAAA\<close> followed by twelve line feeds another.
\<close>

theorem readCreds_short_envelope:
  assumes "getKey w keyFilename = (Return key, ktr)"
    and "length key = 16 \<or> length key = 24 \<or> length key = 32"
    and "os_ReadFile w authFilename = Inr base64data"
    and "base64_DecodeString base64data = Inr data"
    and "length data < 12"
  shows "readCreds L w keyFilename authFilename =
     (Panic (if base64_DecodedLen (length base64data) < 12
             then SliceHighOutOfRange 12 (base64_DecodedLen (length base64data))
             else SliceLowOutOfRange 12 (length data)),
      ktr @ [EvNewCipher key, EvShred (replicate (length key) (CHR 0x69)), EvNewGCM, EvReadFile authFilename])"
  using assms(2-5) by (simp add: readCreds_with_key [OF assms(1)])

theorem readCreds_short_envelope_witness:
  "readCreds toy_lib sample_world ''key.b64'' ''tiny.creds'' =
     (Panic (SliceHighOutOfRange 12 3),
      [EvStat ''key.b64'', EvReadFile ''key.b64'', EvNewCipher ''0123456789abcdef'',
       EvShred ''iiiiiiiiiiiiiiii'', EvNewGCM, EvReadFile ''tiny.creds'']) \<and>
   readCreds toy_lib sample_world ''key.b64'' ''blank.creds'' =
     (Panic (SliceLowOutOfRange 12 3),
      [EvStat ''key.b64'', EvReadFile ''key.b64'', EvNewCipher ''0123456789abcdef'',
       EvShred ''iiiiiiiiiiiiiiii'', EvNewGCM, EvReadFile ''blank.creds''])"
proof -
  have l: "length ''0123456789abcdef'' = 16 \<or> length ''0123456789abcdef'' = 24 \<or> length ''0123456789abcdef'' = 32"
    by simp
  have r1: "os_ReadFile sample_world ''tiny.creds'' = Inr ''AAAA''"
    and r2: "os_ReadFile sample_world ''blank.creds'' = Inr (''AAAA'' @ replicate 12 (CHR 0x0A))"
    by (simp_all add: os_ReadFile_def lookup_sample)
  have s: "length [CHR 0x00, CHR 0x00, CHR 0x00] < 12" by simp
  have r: "replicate (length ''0123456789abcdef'') (CHR 0x69) = ''iiiiiiiiiiiiiiii''"
    by (simp add: numeral_eq_Suc)
  note t1 = readCreds_short_envelope [OF getKey_sample l r1 decode_tiny s, of toy_lib]
  note t2 = readCreds_short_envelope [OF getKey_sample l r2 decode_blank s, of toy_lib]
  from t1 t2 show ?thesis
    unfolding r by (simp add: base64_DecodedLen_def)
qed

section \<open>Load after save\<close>

lemma lookup_file_other:
  "name \<noteq> other \<Longrightarrow>
   lookup_file (w\<lparr>files := (files w)(other \<mapsto> f)\<rparr>) name = lookup_file w name"
  by (simp add: lookup_file_def)

lemma getKey_other:
  assumes "keyFilename \<noteq> other"
  shows "getKey (w\<lparr>files := (files w)(other \<mapsto> f)\<rparr>) keyFilename = getKey w keyFilename"
  unfolding getKey_def os_Stat_def os_ReadFile_def lookup_file_other [OF assms] by (rule refl)

lemma writeCreds_succeeds:
  assumes "getKey w keyFilename = (Return key, ktr)"
    and "length key = 16 \<or> length key = 24 \<or> length key = 32"
    and "entropy_err w = None"
    and "gob_Encode L authData = Inr buf" and "length buf \<le> 68719476704"
    and "authFilename \<noteq> []"
  shows "fst (writeCreds L w keyFilename authFilename authData) = Return ()"
  using assms(2-6) by (simp add: writeCreds_with_key [OF assms(1)] Let_def os_WriteFile_def)

text \<open>
  C2. Let the library keep its contracts: what AES-GCM seals under a key, a nonce of 12 bytes
  and associated data it opens again under the same three, and what gob encodes it decodes.
  Let the key file and the credential file be distinct files, so that the save leaves the
  key as it is. Then for every credentials record and every world, hence every key and every
  nonce the random source delivers: whenever \<^verbatim>\<open>writeCreds\<close> returns, \<^verbatim>\<open>readCreds\<close> in the
  world it leaves returns exactly the record that was saved.
\<close>

theorem credentials_roundtrip:
  assumes "aead_roundtrip L" and "gob_roundtrip L"
    and "keyFilename \<noteq> authFilename"
    and "writeCreds L w keyFilename authFilename authData = (Return (), w', tr)"
  shows "fst (readCreds L w' keyFilename authFilename) = Return authData"
proof -
  obtain key ktr where k: "getKey w keyFilename = (Return key, ktr)"
    using assms(4) by (cases "getKey w keyFilename") (auto simp: writeCreds_def split: result.splits)
  define nonce where "nonce = map (entropy w) [0..<12]"
  note wr = assms(4) [unfolded writeCreds_with_key [OF k] Let_def]
  have len: "length key = 16 \<or> length key = 24 \<or> length key = 32"
    using wr by (auto split: if_splits)
  obtain buf where buf: "gob_Encode L authData = Inr buf" "length buf \<le> 68719476704"
    using wr len by (auto split: if_splits option.splits sum.splits)
  define sealed where "sealed = aes_gcm_seal L key nonce buf additionalContext"
  define base64data where "base64data = base64_EncodeToString (nonce @ sealed)"
  have w': "w' = w\<lparr>files := (files w)(authFilename \<mapsto>
        \<lparr>Mode = (case files w authFilename of None \<Rightarrow> ModePerm AND NOT (umask w) | Some f \<Rightarrow> Mode f),
         Content = base64data\<rparr>)\<rparr>" and ne: "authFilename \<noteq> []"
    using wr len buf
    by (auto simp: os_WriteFile_def base64data_def sealed_def nonce_def
             split: if_splits option.splits sum.splits prod.splits)
  have k': "getKey w' keyFilename = (Return key, ktr)"
    unfolding w' using assms(3) k by (simp add: getKey_other)
  have rd: "os_ReadFile w' authFilename = Inr base64data"
    unfolding w' using ne by (simp add: os_ReadFile_def lookup_file_def)
  have dec: "base64_DecodeString base64data = Inr (nonce @ sealed)"
    unfolding base64data_def by (rule base64_roundtrip)
  have nl: "length nonce = 12" by (simp add: nonce_def)
  have cap: "\<not> base64_DecodedLen (length base64data) < 12"
    using base64_capacity [of "nonce @ sealed"] nl by (simp add: base64data_def)
  have opn: "aes_gcm_open L key nonce sealed additionalContext = Some buf"
    using assms(1) len nl buf(2) unfolding aead_roundtrip_def sealed_def by blast
  have gob: "gob_Decode L buf = Inr authData"
    using assms(2) buf(1) unfolding gob_roundtrip_def by blast
  show ?thesis
    using len nl cap
    by (simp add: readCreds_with_key [OF k'] rd dec opn gob)
qed

theorem credentials_roundtrip_witness:
  "aead_roundtrip toy_lib \<and> gob_roundtrip toy_lib \<and>
   fst (writeCreds toy_lib sample_world ''key.b64'' ''creds.b64'' sample_creds) = Return () \<and>
   fst (readCreds toy_lib (fst (snd (writeCreds toy_lib sample_world ''key.b64'' ''creds.b64'' sample_creds)))
          ''key.b64'' ''creds.b64'') = Return sample_creds"
proof -
  have ne: "''key.b64'' \<noteq> ''creds.b64''" by simp
  define buf where
    "buf = replicate (length (Username sample_creds)) (CHR 0x01) @ [CHR 0x00] @ Username sample_creds
             @ EncodedPassword sample_creds"
  have enc: "gob_Encode toy_lib sample_creds = Inr buf"
    by (simp add: toy_lib_def toy_gob_Encode_def buf_def)
  have "length buf = 41" by (simp add: buf_def sample_creds_def)
  then have small: "length buf \<le> 68719476704" by simp
  have ok: "fst (writeCreds toy_lib sample_world ''key.b64'' ''creds.b64'' sample_creds) = Return ()"
    by (rule writeCreds_succeeds [OF getKey_sample _ _ enc small]) (simp_all add: sample_world_def)
  then have run: "writeCreds toy_lib sample_world ''key.b64'' ''creds.b64'' sample_creds =
      (Return (), fst (snd (writeCreds toy_lib sample_world ''key.b64'' ''creds.b64'' sample_creds)),
       snd (snd (writeCreds toy_lib sample_world ''key.b64'' ''creds.b64'' sample_creds)))"
    by (metis prod.collapse)
  from credentials_roundtrip [OF toy_aead_roundtrip toy_gob_roundtrip ne run] ok
  show ?thesis
    using toy_aead_roundtrip toy_gob_roundtrip by simp
qed

section \<open>Load fails closed\<close>

text \<open>
  A byte of 128 or more is no base64 digit, no padding and no line break, so a string that
  holds one is refused by the decoder; the encoder emits ASCII only, so flipping the top bit
  of any byte of its output gives such a string. What the decoder returns fits the capacity
  of its buffer.
\<close>

lemma decodeMap_Some_ascii: "decodeMap c = Some x \<Longrightarrow> (of_char c :: nat) < 128"
proof -
  assume "decodeMap c = Some x"
  then have "c \<in> set encodeStd"
    unfolding decodeMap_def by (auto dest!: map_of_SomeD set_zip_leftD)
  then show ?thesis unfolding encodeStd_def by auto
qed

lemma decodeQuanta_high_byte:
  "\<exists>c \<in> set s. 128 \<le> (of_char c :: nat) \<Longrightarrow> decodeQuanta s = Inl CorruptInputError"
proof (induction s rule: decodeQuanta.induct)
  case (1 a b c d rest)
  show ?case
  proof (cases "\<exists>c \<in> set rest. 128 \<le> (of_char c :: nat)")
    case True
    then show ?thesis using 1 by (auto split: option.splits sum.splits simp: Let_def)
  next
    case False
    then have "128 \<le> (of_char a :: nat) \<or> 128 \<le> (of_char b :: nat) \<or> 128 \<le> (of_char c :: nat) \<or> 128 \<le> (of_char d :: nat)"
      using "1.prems" by auto
    then show ?thesis
      by (auto split: option.splits sum.splits simp: Let_def dest: decodeMap_Some_ascii)
  qed
qed simp_all

lemma base64_Decode_high_byte:
  assumes "c \<in> set s" and "128 \<le> (of_char c :: nat)"
  shows "base64_DecodeString s = Inl CorruptInputError"
proof -
  have "c \<noteq> CHR 0x0A \<and> c \<noteq> CHR 0x0D" using assms(2) by auto
  then have "c \<in> set (filter (\<lambda>c. c \<noteq> CHR 0x0A \<and> c \<noteq> CHR 0x0D) s)" using assms(1) by simp
  then show ?thesis unfolding base64_DecodeString_def
    using assms(2) by (intro decodeQuanta_high_byte) blast
qed

lemma base64_Encode_ascii: "c \<in> set (base64_EncodeToString bs) \<Longrightarrow> (of_char c :: nat) < 128"
proof (induction bs arbitrary: c rule: base64_EncodeToString.induct)
  case (1 a b c rest)
  have e: "\<And>n. n < 64 \<Longrightarrow> (of_char (encodeStd ! n) :: nat) < 128"
    using decodeMap_encodeStd decodeMap_Some_ascii by blast
  show ?case using 1 by (auto simp: Let_def intro!: e)
next
  case (2 a b)
  have e: "\<And>n. n < 64 \<Longrightarrow> (of_char (encodeStd ! n) :: nat) < 128"
    using decodeMap_encodeStd decodeMap_Some_ascii by blast
  show ?case using 2 by (auto simp: Let_def intro!: e)
next
  case (3 a)
  have e: "\<And>n. n < 64 \<Longrightarrow> (of_char (encodeStd ! n) :: nat) < 128"
    using decodeMap_encodeStd decodeMap_Some_ascii by blast
  show ?case using 3 by (auto simp: Let_def intro!: e)
qed simp

lemma flip_top_bit: "m < 128 \<Longrightarrow> flip_bit 7 (m::nat) = m + 128"
proof -
  assume m: "m < 128"
  then have "\<not> bit m 7" by (simp add: bit_iff_odd)
  then show ?thesis by (simp add: flip_bit_eq_if set_bit_eq)
qed

lemma flip_bit_at_top:
  assumes "i < length s" and "(of_char (s ! i) :: nat) < 128"
  shows "\<exists>c \<in> set (flip_bit_at (8 * i + 7) s). 128 \<le> (of_char c :: nat)"
proof -
  have "flip_bit_at (8 * i + 7) s = s[i := char_of (of_char (s ! i) + 128 :: nat)]"
    using assms(2) by (simp add: flip_bit_at_def flip_top_bit)
  moreover have "128 \<le> (of_char (char_of (of_char (s ! i) + 128 :: nat)) :: nat)"
    using assms(2) by simp
  ultimately show ?thesis using assms(1) by (auto simp: set_update_memI intro!: bexI [of _ "char_of (of_char (s ! i) + 128 :: nat)"])
qed

lemma decodeQuanta_length: "decodeQuanta s = Inr data \<Longrightarrow> length data \<le> length s div 4 * 3"
proof (induction s arbitrary: data rule: decodeQuanta.induct)
  case (1 a b c d rest)
  have step: "(4 + length rest) div 4 * 3 = length rest div 4 * 3 + 3" by presburger
  show ?case
  proof (cases "decodeQuanta rest")
    case (Inl e)
    then show ?thesis using "1.prems"
      by (auto split: option.splits if_splits simp: Let_def)
  next
    case (Inr bs)
    show ?thesis
    proof (cases "\<exists>x0 x1 x2 x3. decodeMap a = Some x0 \<and> decodeMap b = Some x1 \<and> decodeMap c = Some x2 \<and> decodeMap d = Some x3")
      case True
      then obtain x0 x1 x2 x3 where m: "decodeMap a = Some x0" "decodeMap b = Some x1"
          "decodeMap c = Some x2" "decodeMap d = Some x3" by blast
      have "length bs \<le> length rest div 4 * 3"
        using "1.IH" [OF refl m(1) m(2) m(3) m(4) refl Inr] .
      moreover have "length data = length bs + 3"
        using "1.prems" m Inr by (auto simp: Let_def)
      ultimately show ?thesis by (simp add: step)
    next
      case False
      then show ?thesis using "1.prems"
        by (auto split: option.splits if_splits sum.splits simp: Let_def)
    qed
  qed
qed simp_all

lemma base64_Decode_capacity:
  assumes "base64_DecodeString s = Inr data"
  shows "length data \<le> base64_DecodedLen (length s)"
proof -
  let ?t = "filter (\<lambda>c. c \<noteq> CHR 0x0A \<and> c \<noteq> CHR 0x0D) s"
  have "length data \<le> length ?t div 4 * 3"
    using assms unfolding base64_DecodeString_def by (rule decodeQuanta_length)
  also have "\<dots> \<le> length s div 4 * 3"
    by (intro mult_le_mono1 div_le_mono length_filter_le)
  finally show ?thesis by (simp add: base64_DecodedLen_def)
qed

lemma writeCreds_envelope:
  assumes "writeCreds L w keyFilename authFilename authData = (Return (), w', tr)"
    and "os_ReadFile w' authFilename = Inr envelope"
  shows "\<exists>data. envelope = base64_EncodeToString data"
proof -
  obtain key ktr where k: "getKey w keyFilename = (Return key, ktr)"
    using assms(1) by (cases "getKey w keyFilename") (auto simp: writeCreds_def split: result.splits)
  note wr = assms(1) [unfolded writeCreds_with_key [OF k] Let_def]
  from wr assms(2) show ?thesis
    by (auto simp: os_WriteFile_def os_ReadFile_def lookup_file_def
             split: if_splits option.splits sum.splits prod.splits)
       (rule exI, rule refl)+
qed

lemma encode_saved:
  "base64_EncodeToString
     (''************'' @
      ([CHR 0x01, CHR 0x01, CHR 0x01, CHR 0x01, CHR 0x01, CHR 0x01, CHR 0x01, CHR 0x01,
        CHR 0x01, CHR 0x01, CHR 0x01, CHR 0x01, CHR 0x01, CHR 0x01, CHR 0x01, CHR 0x01,
        CHR 0x00] @ ''user@example.com'' @ ''dG9rZW4='') @ ''irdata.auth*****'') = saved_envelope"
  by (simp add: encodeStd_def Let_def saved_envelope_def)

lemma decode_saved:
  "base64_DecodeString saved_envelope =
     Inr (''************'' @
      ([CHR 0x01, CHR 0x01, CHR 0x01, CHR 0x01, CHR 0x01, CHR 0x01, CHR 0x01, CHR 0x01,
        CHR 0x01, CHR 0x01, CHR 0x01, CHR 0x01, CHR 0x01, CHR 0x01, CHR 0x01, CHR 0x01,
        CHR 0x00] @ ''user@example.com'' @ ''dG9rZW4='') @ ''irdata.auth*****'')"
  using base64_roundtrip [of "''************'' @
      ([CHR 0x01, CHR 0x01, CHR 0x01, CHR 0x01, CHR 0x01, CHR 0x01, CHR 0x01, CHR 0x01,
        CHR 0x01, CHR 0x01, CHR 0x01, CHR 0x01, CHR 0x01, CHR 0x01, CHR 0x01, CHR 0x01,
        CHR 0x00] @ ''user@example.com'' @ ''dG9rZW4='') @ ''irdata.auth*****''"]
  by (simp only: encode_saved)

lemma encode_nonce: "base64_EncodeToString ''************'' = ''KioqKioqKioqKioq''"
  by (simp add: encodeStd_def Let_def)

lemma decode_cut: "base64_DecodeString (take 16 saved_envelope) = Inr ''************''"
proof -
  have "take 16 saved_envelope = ''KioqKioqKioqKioq''" by (simp add: saved_envelope_def)
  then show ?thesis using base64_roundtrip [of "''************''"] by (simp only: encode_nonce)
qed

lemma getKey_tampered:
  "getKey tampered_world ''key.b64'' = (Return ''0123456789abcdef'', [EvStat ''key.b64'', EvReadFile ''key.b64''])"
  by (simp add: getKey_Return lookup_file_def tampered_world_def ModePerm_def decode_sample_key)

lemma read_tampered:
  "os_ReadFile tampered_world ''saved.creds'' = Inr saved_envelope"
  "os_ReadFile tampered_world ''cut.creds'' = Inr (take 16 saved_envelope)"
  "os_ReadFile tampered_world ''flipped.creds'' = Inr (flip_bit_at 7 saved_envelope)"
  by (simp_all add: os_ReadFile_def lookup_file_def tampered_world_def)

lemma sample_nonce: "map (entropy sample_world) [0..<12] = ''************''"
  by (simp add: sample_world_def upt_rec)

lemma sample_gob:
  "gob_Encode toy_lib sample_creds =
     Inr ([CHR 0x01, CHR 0x01, CHR 0x01, CHR 0x01, CHR 0x01, CHR 0x01, CHR 0x01, CHR 0x01,
        CHR 0x01, CHR 0x01, CHR 0x01, CHR 0x01, CHR 0x01, CHR 0x01, CHR 0x01, CHR 0x01,
        CHR 0x00] @ ''user@example.com'' @ ''dG9rZW4='')"
  by (simp add: toy_lib_def toy_gob_Encode_def sample_creds_def numeral_eq_Suc)

lemma sample_seal:
  "aes_gcm_seal toy_lib ''0123456789abcdef'' ''************'' buf additionalContext = buf @ ''irdata.auth*****''"
  by (simp add: toy_lib_def toy_seal_def additionalContext_def)

lemma save_sample:
  "fst (writeCreds toy_lib sample_world ''key.b64'' ''saved.creds'' sample_creds) = Return () \<and>
   os_ReadFile (fst (snd (writeCreds toy_lib sample_world ''key.b64'' ''saved.creds'' sample_creds)))
     ''saved.creds'' = Inr saved_envelope"
proof -
  have e: "entropy_err sample_world = None" by (simp add: sample_world_def)
  show ?thesis
    unfolding writeCreds_with_key [OF getKey_sample] Let_def sample_nonce sample_gob e sample_seal
      encode_saved
    by (simp add: os_WriteFile_def os_ReadFile_def lookup_file_def encodeStd_def saved_envelope_def Let_def)
qed

lemma open_saved:
  "aes_gcm_open toy_lib ''0123456789abcdef'' ''************''
     (([CHR 0x01, CHR 0x01, CHR 0x01, CHR 0x01, CHR 0x01, CHR 0x01, CHR 0x01, CHR 0x01,
        CHR 0x01, CHR 0x01, CHR 0x01, CHR 0x01, CHR 0x01, CHR 0x01, CHR 0x01, CHR 0x01,
        CHR 0x00] @ ''user@example.com'' @ ''dG9rZW4='') @ ''irdata.auth*****'') additionalContext =
   Some ([CHR 0x01, CHR 0x01, CHR 0x01, CHR 0x01, CHR 0x01, CHR 0x01, CHR 0x01, CHR 0x01,
        CHR 0x01, CHR 0x01, CHR 0x01, CHR 0x01, CHR 0x01, CHR 0x01, CHR 0x01, CHR 0x01,
        CHR 0x00] @ ''user@example.com'' @ ''dG9rZW4='')"
  by (simp add: toy_lib_def toy_open_def additionalContext_def Let_def)

lemma open_cut:
  "aes_gcm_open toy_lib ''0123456789abcdef'' ''************'' [] additionalContext = None"
  by (simp add: toy_lib_def toy_open_def additionalContext_def Let_def)

lemma decode_sample_gob:
  "gob_Decode toy_lib ([CHR 0x01, CHR 0x01, CHR 0x01, CHR 0x01, CHR 0x01, CHR 0x01, CHR 0x01, CHR 0x01,
        CHR 0x01, CHR 0x01, CHR 0x01, CHR 0x01, CHR 0x01, CHR 0x01, CHR 0x01, CHR 0x01,
        CHR 0x00] @ ''user@example.com'' @ ''dG9rZW4='') = Inr sample_creds"
  by (simp add: toy_lib_def toy_gob_Decode_def sample_creds_def Let_def)

lemma saved_envelope_length: "length saved_envelope = 92"
  by (simp add: saved_envelope_def)

lemma load_saved:
  "fst (readCreds toy_lib tampered_world ''key.b64'' ''saved.creds'') = Return sample_creds"
  by (simp add: readCreds_with_key [OF getKey_tampered] read_tampered decode_saved
        saved_envelope_length base64_DecodedLen_def open_saved [simplified] decode_sample_gob [simplified])

text \<open>
  C3, as the code has it. \<^verbatim>\<open>readCreds\<close> fails closed on whatever AES-GCM rejects. It returns
  a credentials record only when \<^verbatim>\<open>getKey\<close> gave a key, the credential file held valid
  base64 of at least 12 bytes, \<^verbatim>\<open>Open\<close> accepted the bytes after the twelfth under that key,
  the first 12 bytes as nonce and the context tag \<^verbatim>\<open>irdata.auth\<close>, and gob decoded what
  \<^verbatim>\<open>Open\<close> returned to that very record: never anything partial. Whenever \<^verbatim>\<open>Open\<close> rejects
  the envelope, which is how a wrong key, a tampered envelope or another context tag shows,
  as far as AES-GCM detects them, \<^verbatim>\<open>readCreds\<close> panics with the authentication error of
  \<^verbatim>\<open>Open\<close> and returns nothing. But not every flipped bit reaches \<^verbatim>\<open>Open\<close>: when the top
  bit of any byte of an envelope that \<^verbatim>\<open>writeCreds\<close> saved is flipped, \<^verbatim>\<open>readCreds\<close> panics
  on the base64 decoding, with a \<^verbatim>\<open>CorruptInputError\<close>, before \<^verbatim>\<open>Open\<close> is called.
\<close>

theorem readCreds_fails_closed:
  "(\<forall>authData. fst (readCreds L w keyFilename authFilename) = Return authData \<longrightarrow>
      (\<exists>key ktr base64data data authGob.
         getKey w keyFilename = (Return key, ktr) \<and>
         os_ReadFile w authFilename = Inr base64data \<and>
         base64_DecodeString base64data = Inr data \<and> 12 \<le> length data \<and>
         aes_gcm_open L key (take 12 data) (drop 12 data) additionalContext = Some authGob \<and>
         gob_Decode L authGob = Inr authData)) \<and>
   (getKey w keyFilename = (Return key, ktr) \<and>
    (length key = 16 \<or> length key = 24 \<or> length key = 32) \<and>
    os_ReadFile w authFilename = Inr base64data \<and>
    base64_DecodeString base64data = Inr data \<and> 12 \<le> length data \<and>
    aes_gcm_open L key (take 12 data) (drop 12 data) additionalContext = None \<longrightarrow>
      readCreds L w keyFilename authFilename =
        (Panic (LogPanic ErrOpen),
         ktr @ [EvNewCipher key, EvShred (replicate (length key) (CHR 0x69)), EvNewGCM,
                EvReadFile authFilename, EvOpen])) \<and>
   (writeCreds L w0 keyFilename0 authFilename0 authData0 = (Return (), w1, tr) \<and>
    os_ReadFile w1 authFilename0 = Inr envelope \<and> i < length envelope \<and>
    getKey w keyFilename = (Return key, ktr) \<and>
    (length key = 16 \<or> length key = 24 \<or> length key = 32) \<and>
    os_ReadFile w authFilename = Inr (flip_bit_at (8 * i + 7) envelope) \<longrightarrow>
      readCreds L w keyFilename authFilename =
        (Panic (LogPanic CorruptInputError),
         ktr @ [EvNewCipher key, EvShred (replicate (length key) (CHR 0x69)), EvNewGCM,
                EvReadFile authFilename]))"
proof (intro conjI allI impI)
  fix authData
  assume r: "fst (readCreds L w keyFilename authFilename) = Return authData"
  obtain key ktr where k: "getKey w keyFilename = (Return key, ktr)"
    using r by (cases "getKey w keyFilename") (auto simp: readCreds_def split: result.splits)
  note rd = r [unfolded readCreds_with_key [OF k] Let_def]
  from rd show "\<exists>key ktr base64data data authGob.
         getKey w keyFilename = (Return key, ktr) \<and>
         os_ReadFile w authFilename = Inr base64data \<and>
         base64_DecodeString base64data = Inr data \<and> 12 \<le> length data \<and>
         aes_gcm_open L key (take 12 data) (drop 12 data) additionalContext = Some authGob \<and>
         gob_Decode L authGob = Inr authData"
    using k by (auto split: if_splits sum.splits option.splits)
next
  assume a: "getKey w keyFilename = (Return key, ktr) \<and>
    (length key = 16 \<or> length key = 24 \<or> length key = 32) \<and>
    os_ReadFile w authFilename = Inr base64data \<and>
    base64_DecodeString base64data = Inr data \<and> 12 \<le> length data \<and>
    aes_gcm_open L key (take 12 data) (drop 12 data) additionalContext = None"
  then have k: "getKey w keyFilename = (Return key, ktr)" by simp
  have cap: "\<not> base64_DecodedLen (length base64data) < 12"
    using a base64_Decode_capacity [of base64data data] by simp
  show "readCreds L w keyFilename authFilename =
        (Panic (LogPanic ErrOpen),
         ktr @ [EvNewCipher key, EvShred (replicate (length key) (CHR 0x69)), EvNewGCM,
                EvReadFile authFilename, EvOpen])"
    using a cap by (simp add: readCreds_with_key [OF k])
next
  assume a: "writeCreds L w0 keyFilename0 authFilename0 authData0 = (Return (), w1, tr) \<and>
    os_ReadFile w1 authFilename0 = Inr envelope \<and> i < length envelope \<and>
    getKey w keyFilename = (Return key, ktr) \<and>
    (length key = 16 \<or> length key = 24 \<or> length key = 32) \<and>
    os_ReadFile w authFilename = Inr (flip_bit_at (8 * i + 7) envelope)"
  then have k: "getKey w keyFilename = (Return key, ktr)" by simp
  obtain data where "envelope = base64_EncodeToString data"
    using a writeCreds_envelope by blast
  then have "(of_char (envelope ! i) :: nat) < 128"
    using a base64_Encode_ascii [of "envelope ! i" data] by simp
  then obtain c where "c \<in> set (flip_bit_at (8 * i + 7) envelope)" "128 \<le> (of_char c :: nat)"
    using a flip_bit_at_top [of i envelope] by blast
  then have "base64_DecodeString (flip_bit_at (8 * i + 7) envelope) = Inl CorruptInputError"
    by (rule base64_Decode_high_byte)
  then show "readCreds L w keyFilename authFilename =
        (Panic (LogPanic CorruptInputError),
         ktr @ [EvNewCipher key, EvShred (replicate (length key) (CHR 0x69)), EvNewGCM,
                EvReadFile authFilename])"
    using a by (simp add: readCreds_with_key [OF k])
qed

theorem readCreds_fails_closed_witness:
  "fst (readCreds toy_lib tampered_world ''key.b64'' ''saved.creds'') = Return sample_creds \<and>
   (\<exists>key ktr base64data data authGob.
      getKey tampered_world ''key.b64'' = (Return key, ktr) \<and>
      os_ReadFile tampered_world ''saved.creds'' = Inr base64data \<and>
      base64_DecodeString base64data = Inr data \<and> 12 \<le> length data \<and>
      aes_gcm_open toy_lib key (take 12 data) (drop 12 data) additionalContext = Some authGob \<and>
      gob_Decode toy_lib authGob = Inr sample_creds) \<and>
   readCreds toy_lib tampered_world ''key.b64'' ''cut.creds'' =
     (Panic (LogPanic ErrOpen),
      [EvStat ''key.b64'', EvReadFile ''key.b64'', EvNewCipher ''0123456789abcdef'',
       EvShred ''iiiiiiiiiiiiiiii'', EvNewGCM, EvReadFile ''cut.creds'', EvOpen]) \<and>
   fst (writeCreds toy_lib sample_world ''key.b64'' ''saved.creds'' sample_creds) = Return () \<and>
   os_ReadFile (fst (snd (writeCreds toy_lib sample_world ''key.b64'' ''saved.creds'' sample_creds)))
     ''saved.creds'' = Inr saved_envelope \<and>
   readCreds toy_lib tampered_world ''key.b64'' ''flipped.creds'' =
     (Panic (LogPanic CorruptInputError),
      [EvStat ''key.b64'', EvReadFile ''key.b64'', EvNewCipher ''0123456789abcdef'',
       EvShred ''iiiiiiiiiiiiiiii'', EvNewGCM, EvReadFile ''flipped.creds''])"
proof -
  have l: "length ''0123456789abcdef'' = 16 \<or> length ''0123456789abcdef'' = 24 \<or> length ''0123456789abcdef'' = 32"
    by simp
  have r: "replicate (length ''0123456789abcdef'') (CHR 0x69) = ''iiiiiiiiiiiiiiii''"
    by (simp add: numeral_eq_Suc)
  have run: "writeCreds toy_lib sample_world ''key.b64'' ''saved.creds'' sample_creds =
      (Return (), fst (snd (writeCreds toy_lib sample_world ''key.b64'' ''saved.creds'' sample_creds)),
       snd (snd (writeCreds toy_lib sample_world ''key.b64'' ''saved.creds'' sample_creds)))"
    using save_sample by (metis prod.collapse)
  have c: "12 \<le> length ''************'' \<and>
      aes_gcm_open toy_lib ''0123456789abcdef'' (take 12 ''************'') (drop 12 ''************'')
        additionalContext = None"
    using open_cut by simp
  have f: "(0::nat) < length saved_envelope \<and>
      os_ReadFile tampered_world ''flipped.creds'' = Inr (flip_bit_at (8 * 0 + 7) saved_envelope)"
    by (simp add: read_tampered saved_envelope_length)
  note t1 = readCreds_fails_closed [where L = toy_lib and w = tampered_world and keyFilename = "''key.b64''"
      and authFilename = "''saved.creds''", THEN conjunct1, rule_format, OF load_saved]
  note t2 = readCreds_fails_closed [where L = toy_lib and w = tampered_world and keyFilename = "''key.b64''"
      and authFilename = "''cut.creds''" and key = "''0123456789abcdef''"
      and ktr = "[EvStat ''key.b64'', EvReadFile ''key.b64'']"
      and base64data = "take 16 saved_envelope" and data = "''************''",
      THEN conjunct2, THEN conjunct1, rule_format]
  note t3 = readCreds_fails_closed [where L = toy_lib and w = tampered_world and keyFilename = "''key.b64''"
      and authFilename = "''flipped.creds''" and key = "''0123456789abcdef''"
      and ktr = "[EvStat ''key.b64'', EvReadFile ''key.b64'']"
      and ?w0.0 = sample_world and ?keyFilename0.0 = "''key.b64''" and ?authFilename0.0 = "''saved.creds''"
      and ?authData0.0 = sample_creds and envelope = saved_envelope and i = 0
      and ?w1.0 = "fst (snd (writeCreds toy_lib sample_world ''key.b64'' ''saved.creds'' sample_creds))"
      and tr = "snd (snd (writeCreds toy_lib sample_world ''key.b64'' ''saved.creds'' sample_creds))",
      THEN conjunct2, THEN conjunct2, rule_format]
  have p2: "readCreds toy_lib tampered_world ''key.b64'' ''cut.creds'' =
        (Panic (LogPanic ErrOpen),
         [EvStat ''key.b64'', EvReadFile ''key.b64''] @
         [EvNewCipher ''0123456789abcdef'', EvShred (replicate (length ''0123456789abcdef'') (CHR 0x69)), EvNewGCM,
                EvReadFile ''cut.creds'', EvOpen])"
    using getKey_tampered l read_tampered(2) decode_cut c by (intro t2) blast
  have p3: "readCreds toy_lib tampered_world ''key.b64'' ''flipped.creds'' =
        (Panic (LogPanic CorruptInputError),
         [EvStat ''key.b64'', EvReadFile ''key.b64''] @
         [EvNewCipher ''0123456789abcdef'', EvShred (replicate (length ''0123456789abcdef'') (CHR 0x69)), EvNewGCM,
                EvReadFile ''flipped.creds''])"
    using run save_sample getKey_tampered l f by (intro t3) blast
  from t1 p2 p3 load_saved save_sample show ?thesis unfolding r by simp
qed

text \<open>
  A flipped bit does not always end in the authentication error. Flip the top bit of the
  first byte of the envelope saved for the sample credentials, \<^verbatim>\<open>K\<close> becoming the byte
  \<^verbatim>\<open>0xCB\<close>: whatever the library, the load panics with the \<^verbatim>\<open>CorruptInputError\<close> of the
  base64 decoder, and \<^verbatim>\<open>Open\<close> is not called.
\<close>

theorem readCreds_bitflip_counterexample:
  "fst (writeCreds toy_lib sample_world ''key.b64'' ''saved.creds'' sample_creds) = Return () \<and>
   os_ReadFile (fst (snd (writeCreds toy_lib sample_world ''key.b64'' ''saved.creds'' sample_creds)))
     ''saved.creds'' = Inr saved_envelope \<and>
   os_ReadFile tampered_world ''flipped.creds'' = Inr (flip_bit_at 7 saved_envelope) \<and>
   flip_bit_at 7 saved_envelope = CHR 0xCB # tl saved_envelope \<and>
   (\<forall>L. readCreds L tampered_world ''key.b64'' ''flipped.creds'' =
     (Panic (LogPanic CorruptInputError),
      [EvStat ''key.b64'', EvReadFile ''key.b64'', EvNewCipher ''0123456789abcdef'',
       EvShred ''iiiiiiiiiiiiiiii'', EvNewGCM, EvReadFile ''flipped.creds'']))"
proof -
  have fl: "flip_bit_at 7 saved_envelope = CHR 0xCB # tl saved_envelope"
    by (simp add: flip_bit_at_def saved_envelope_def flip_bit_eq_if set_bit_eq bit_iff_odd char_of_def bit_0)
  have "CHR 0xCB \<in> set (flip_bit_at 7 saved_envelope)" "128 \<le> (of_char (CHR 0xCB) :: nat)"
    by (simp_all add: fl)
  then have d: "base64_DecodeString (flip_bit_at 7 saved_envelope) = Inl CorruptInputError"
    by (rule base64_Decode_high_byte)
  have r: "replicate (length ''0123456789abcdef'') (CHR 0x69) = ''iiiiiiiiiiiiiiii''"
    by (simp add: numeral_eq_Suc)
  have "readCreds L tampered_world ''key.b64'' ''flipped.creds'' =
     (Panic (LogPanic CorruptInputError),
      [EvStat ''key.b64'', EvReadFile ''key.b64'', EvNewCipher ''0123456789abcdef'',
       EvShred ''iiiiiiiiiiiiiiii'', EvNewGCM, EvReadFile ''flipped.creds''])" for L
    by (simp add: readCreds_with_key [OF getKey_tampered] read_tampered d r [simplified])
  then show ?thesis using save_sample read_tampered(3) fl by simp
qed

section \<open>The password token\<close>

text \<open>
  \<^verbatim>\<open>encodePassword\<close> never panics and returns the base64 text of a digest of 32 bytes. The
  lower-casing of ASCII text does not see the case of its letters. Base64 is injective, since
  it can be decoded.
\<close>

lemma sha256_digest_length: "length (sha256_digest H) = 32"
  by (cases H rule: sha256_digest.cases) (simp add: bytes_of_word32_def)

lemma sha256_Sum256_length: "length (sha256_Sum256 m) = 32"
  by (simp add: sha256_Sum256_def sha256_digest_length)

lemma encodePassword_eq:
  "encodePassword L username password =
     Return (base64_EncodeToString (sha256_Sum256 (password @ strings_ToLower L username)))"
  by (simp add: encodePassword_def hash_Write_def hash_Sum_def sha256_New_def)


lemma of_char_char_of_small: "n < 256 \<Longrightarrow> (of_char (char_of n) :: nat) = n"
  by simp







lemma utf8_DecodeRune_width: "s \<noteq> [] \<Longrightarrow> 0 < snd (utf8_DecodeRune s)"
  by (auto simp: utf8_DecodeRune_def Let_def split: option.splits prod.splits if_splits)










lemma sha256_collision: "\<exists>p p'. p \<noteq> p' \<and> sha256_Sum256 (p @ l) = sha256_Sum256 (p' @ l)"
proof (rule ccontr)
  assume "\<not> (\<exists>p p'. p \<noteq> p' \<and> sha256_Sum256 (p @ l) = sha256_Sum256 (p' @ l))"
  then have inj: "inj (\<lambda>p. sha256_Sum256 (p @ l))"
    by (auto simp: inj_on_def)
  have fin: "finite {s :: string. length s = 32}"
    using finite_lists_length_eq [of "UNIV :: char set" 32] by simp
  have "range (\<lambda>p. sha256_Sum256 (p @ l)) \<subseteq> {s. length s = 32}"
    by (auto simp: sha256_Sum256_length)
  then have "finite (range (\<lambda>p. sha256_Sum256 (p @ l)))"
    using fin by (rule finite_subset)
  then have "finite (UNIV :: string set)"
    using inj by (rule finite_imageD)
  then show False
    using infinite_UNIV_listI by blast
qed

text \<open>
  The digests of the model are those of SHA-256: the test vector \<^verbatim>\<open>abc\<close> of FIPS 180-4, the
  two messages of the example of the specification, the passwords \<^verbatim>\<open>secret\<close> and
  \<^verbatim>\<open>secret2\<close> followed by \<^verbatim>\<open>user@example.com\<close>, and further down the password
  \<^verbatim>\<open>secret\<close> followed by the long s and by \<^verbatim>\<open>s\<close>. Each fits one block: the message
  schedule is computed eight words at a time, the 64 rounds four at a time.
\<close>

lemma replicate_numeral_Cons: "replicate (numeral k) x = x # replicate (pred_numeral k) x"
  by (simp add: numeral_eq_Suc)

lemma sha256_schedule_numeral:
  "sha256_schedule (numeral k) ws =
     sha256_schedule (pred_numeral k)
       (ws @ [ssig1 (ws ! (length ws - 2)) + ws ! (length ws - 7) + ssig0 (ws ! (length ws - 15))
              + ws ! (length ws - 16)])"
  by (subst numeral_eq_Suc) (simp add: Let_def)

lemma sha256_schedule_add: "sha256_schedule (m + n) ws = sha256_schedule n (sha256_schedule m ws)"
  by (induction m arbitrary: ws) (simp_all add: Let_def)

lemma sha256_schedule_48:
  "sha256_schedule 48 ws =
     sha256_schedule 8 (sha256_schedule 8 (sha256_schedule 8 (sha256_schedule 8
       (sha256_schedule 8 (sha256_schedule 8 ws)))))"
  by (simp add: sha256_schedule_add [symmetric])

lemma sha256_pad_length:
  assumes "length m < 56"
  shows "length (sha256_pad m) = 64"
proof -
  have a: "length m mod 64 = length m"
    using assms by simp
  have b: "119 - length m = (55 - length m) + 64"
    using assms by arith
  have "(119 - length m mod 64) mod 64 = 55 - length m"
    unfolding a b by simp
  then show ?thesis
    using assms by (simp add: sha256_pad_def)
qed

lemma sha256_blocks_single:
  "length m = 64 \<Longrightarrow> sha256_blocks H m = sha256_block H m"
  by (subst sha256_blocks.simps, subst sha256_blocks.simps) simp

lemma sha256_abc:
  "sha256_Sum256 ''abc'' =
     [CHR 0xba, CHR 0x78, CHR 0x16, CHR 0xbf, CHR 0x8f, CHR 0x01, CHR 0xcf, CHR 0xea, CHR 0x41,
     CHR 0x41, CHR 0x40, CHR 0xde, CHR 0x5d, CHR 0xae, CHR 0x22, CHR 0x23, CHR 0xb0, CHR 0x03,
     CHR 0x61, CHR 0xa3, CHR 0x96, CHR 0x17, CHR 0x7a, CHR 0x9c, CHR 0xb4, CHR 0x10, CHR 0xff,
     CHR 0x61, CHR 0xf2, CHR 0x00, CHR 0x15, CHR 0xad]"
proof -
  have pad: "sha256_words (sha256_pad ''abc'') =
      [0x61626380, 0x00000000, 0x00000000, 0x00000000, 0x00000000, 0x00000000, 0x00000000,
      0x00000000, 0x00000000, 0x00000000, 0x00000000, 0x00000000, 0x00000000, 0x00000000,
      0x00000000, 0x00000018]"
    by (simp add: sha256_pad_def be32_def upt_rec char_of_def bit_0 replicate_numeral_Cons)
  have w24: "sha256_schedule 8
      [0x61626380, 0x00000000, 0x00000000, 0x00000000, 0x00000000, 0x00000000, 0x00000000,
      0x00000000, 0x00000000, 0x00000000, 0x00000000, 0x00000000, 0x00000000, 0x00000000,
      0x00000000, 0x00000018] =
      [0x61626380, 0x00000000, 0x00000000, 0x00000000, 0x00000000, 0x00000000, 0x00000000,
      0x00000000, 0x00000000, 0x00000000, 0x00000000, 0x00000000, 0x00000000, 0x00000000,
      0x00000000, 0x00000018, 0x61626380, 0x000f0000, 0x7da86405, 0x600003c6, 0x3e9d7b78,
      0x0183fc00, 0x12dcbfdb, 0xe2e2c38e]"
    by (simp add: sha256_schedule_numeral ssig0_def ssig1_def rotr_def)
  have w32: "sha256_schedule 8
      [0x61626380, 0x00000000, 0x00000000, 0x00000000, 0x00000000, 0x00000000, 0x00000000,
      0x00000000, 0x00000000, 0x00000000, 0x00000000, 0x00000000, 0x00000000, 0x00000000,
      0x00000000, 0x00000018, 0x61626380, 0x000f0000, 0x7da86405, 0x600003c6, 0x3e9d7b78,
      0x0183fc00, 0x12dcbfdb, 0xe2e2c38e] =
      [0x61626380, 0x00000000, 0x00000000, 0x00000000, 0x00000000, 0x00000000, 0x00000000,
      0x00000000, 0x00000000, 0x00000000, 0x00000000, 0x00000000, 0x00000000, 0x00000000,
      0x00000000, 0x00000018, 0x61626380, 0x000f0000, 0x7da86405, 0x600003c6, 0x3e9d7b78,
      0x0183fc00, 0x12dcbfdb, 0xe2e2c38e, 0xc8215c1a, 0xb73679a2, 0xe5bc3909, 0x32663c5b,
      0x9d209d67, 0xec8726cb, 0x702138a4, 0xd3b7973b]"
    by (simp add: sha256_schedule_numeral ssig0_def ssig1_def rotr_def)
  have w40: "sha256_schedule 8
      [0x61626380, 0x00000000, 0x00000000, 0x00000000, 0x00000000, 0x00000000, 0x00000000,
      0x00000000, 0x00000000, 0x00000000, 0x00000000, 0x00000000, 0x00000000, 0x00000000,
      0x00000000, 0x00000018, 0x61626380, 0x000f0000, 0x7da86405, 0x600003c6, 0x3e9d7b78,
      0x0183fc00, 0x12dcbfdb, 0xe2e2c38e, 0xc8215c1a, 0xb73679a2, 0xe5bc3909, 0x32663c5b,
      0x9d209d67, 0xec8726cb, 0x702138a4, 0xd3b7973b] =
      [0x61626380, 0x00000000, 0x00000000, 0x00000000, 0x00000000, 0x00000000, 0x00000000,
      0x00000000, 0x00000000, 0x00000000, 0x00000000, 0x00000000, 0x00000000, 0x00000000,
      0x00000000, 0x00000018, 0x61626380, 0x000f0000, 0x7da86405, 0x600003c6, 0x3e9d7b78,
      0x0183fc00, 0x12dcbfdb, 0xe2e2c38e, 0xc8215c1a, 0xb73679a2, 0xe5bc3909, 0x32663c5b,
      0x9d209d67, 0xec8726cb, 0x702138a4, 0xd3b7973b, 0x93f5997f, 0x3b68ba73, 0xaff4ffc1,
      0xf10a5c62, 0x0a8b3996, 0x72af830a, 0x9409e33e, 0x24641522]"
    by (simp add: sha256_schedule_numeral ssig0_def ssig1_def rotr_def)
  have w48: "sha256_schedule 8
      [0x61626380, 0x00000000, 0x00000000, 0x00000000, 0x00000000, 0x00000000, 0x00000000,
      0x00000000, 0x00000000, 0x00000000, 0x00000000, 0x00000000, 0x00000000, 0x00000000,
      0x00000000, 0x00000018, 0x61626380, 0x000f0000, 0x7da86405, 0x600003c6, 0x3e9d7b78,
      0x0183fc00, 0x12dcbfdb, 0xe2e2c38e, 0xc8215c1a, 0xb73679a2, 0xe5bc3909, 0x32663c5b,
      0x9d209d67, 0xec8726cb, 0x702138a4, 0xd3b7973b, 0x93f5997f, 0x3b68ba73, 0xaff4ffc1,
      0xf10a5c62, 0x0a8b3996, 0x72af830a, 0x9409e33e, 0x24641522] =
      [0x61626380, 0x00000000, 0x00000000, 0x00000000, 0x00000000, 0x00000000, 0x00000000,
      0x00000000, 0x00000000, 0x00000000, 0x00000000, 0x00000000, 0x00000000, 0x00000000,
      0x00000000, 0x00000018, 0x61626380, 0x000f0000, 0x7da86405, 0x600003c6, 0x3e9d7b78,
      0x0183fc00, 0x12dcbfdb, 0xe2e2c38e, 0xc8215c1a, 0xb73679a2, 0xe5bc3909, 0x32663c5b,
      0x9d209d67, 0xec8726cb, 0x702138a4, 0xd3b7973b, 0x93f5997f, 0x3b68ba73, 0xaff4ffc1,
      0xf10a5c62, 0x0a8b3996, 0x72af830a, 0x9409e33e, 0x24641522, 0x9f47bf94, 0xf0a64f5a,
      0x3e246a79, 0x27333ba3, 0x0c4763f2, 0x840abf27, 0x7a290d5d, 0x065c43da]"
    by (simp add: sha256_schedule_numeral ssig0_def ssig1_def rotr_def)
  have w56: "sha256_schedule 8
      [0x61626380, 0x00000000, 0x00000000, 0x00000000, 0x00000000, 0x00000000, 0x00000000,
      0x00000000, 0x00000000, 0x00000000, 0x00000000, 0x00000000, 0x00000000, 0x00000000,
      0x00000000, 0x00000018, 0x61626380, 0x000f0000, 0x7da86405, 0x600003c6, 0x3e9d7b78,
      0x0183fc00, 0x12dcbfdb, 0xe2e2c38e, 0xc8215c1a, 0xb73679a2, 0xe5bc3909, 0x32663c5b,
      0x9d209d67, 0xec8726cb, 0x702138a4, 0xd3b7973b, 0x93f5997f, 0x3b68ba73, 0xaff4ffc1,
      0xf10a5c62, 0x0a8b3996, 0x72af830a, 0x9409e33e, 0x24641522, 0x9f47bf94, 0xf0a64f5a,
      0x3e246a79, 0x27333ba3, 0x0c4763f2, 0x840abf27, 0x7a290d5d, 0x065c43da] =
      [0x61626380, 0x00000000, 0x00000000, 0x00000000, 0x00000000, 0x00000000, 0x00000000,
      0x00000000, 0x00000000, 0x00000000, 0x00000000, 0x00000000, 0x00000000, 0x00000000,
      0x00000000, 0x00000018, 0x61626380, 0x000f0000, 0x7da86405, 0x600003c6, 0x3e9d7b78,
      0x0183fc00, 0x12dcbfdb, 0xe2e2c38e, 0xc8215c1a, 0xb73679a2, 0xe5bc3909, 0x32663c5b,
      0x9d209d67, 0xec8726cb, 0x702138a4, 0xd3b7973b, 0x93f5997f, 0x3b68ba73, 0xaff4ffc1,
      0xf10a5c62, 0x0a8b3996, 0x72af830a, 0x9409e33e, 0x24641522, 0x9f47bf94, 0xf0a64f5a,
      0x3e246a79, 0x27333ba3, 0x0c4763f2, 0x840abf27, 0x7a290d5d, 0x065c43da, 0xfb3e89cb,
      0xcc7617db, 0xb9e66c34, 0xa9993667, 0x84badedd, 0xc21462bc, 0x1487472c, 0xb20f7a99]"
    by (simp add: sha256_schedule_numeral ssig0_def ssig1_def rotr_def)
  have w64: "sha256_schedule 8
      [0x61626380, 0x00000000, 0x00000000, 0x00000000, 0x00000000, 0x00000000, 0x00000000,
      0x00000000, 0x00000000, 0x00000000, 0x00000000, 0x00000000, 0x00000000, 0x00000000,
      0x00000000, 0x00000018, 0x61626380, 0x000f0000, 0x7da86405, 0x600003c6, 0x3e9d7b78,
      0x0183fc00, 0x12dcbfdb, 0xe2e2c38e, 0xc8215c1a, 0xb73679a2, 0xe5bc3909, 0x32663c5b,
      0x9d209d67, 0xec8726cb, 0x702138a4, 0xd3b7973b, 0x93f5997f, 0x3b68ba73, 0xaff4ffc1,
      0xf10a5c62, 0x0a8b3996, 0x72af830a, 0x9409e33e, 0x24641522, 0x9f47bf94, 0xf0a64f5a,
      0x3e246a79, 0x27333ba3, 0x0c4763f2, 0x840abf27, 0x7a290d5d, 0x065c43da, 0xfb3e89cb,
      0xcc7617db, 0xb9e66c34, 0xa9993667, 0x84badedd, 0xc21462bc, 0x1487472c, 0xb20f7a99] =
      [0x61626380, 0x00000000, 0x00000000, 0x00000000, 0x00000000, 0x00000000, 0x00000000,
      0x00000000, 0x00000000, 0x00000000, 0x00000000, 0x00000000, 0x00000000, 0x00000000,
      0x00000000, 0x00000018, 0x61626380, 0x000f0000, 0x7da86405, 0x600003c6, 0x3e9d7b78,
      0x0183fc00, 0x12dcbfdb, 0xe2e2c38e, 0xc8215c1a, 0xb73679a2, 0xe5bc3909, 0x32663c5b,
      0x9d209d67, 0xec8726cb, 0x702138a4, 0xd3b7973b, 0x93f5997f, 0x3b68ba73, 0xaff4ffc1,
      0xf10a5c62, 0x0a8b3996, 0x72af830a, 0x9409e33e, 0x24641522, 0x9f47bf94, 0xf0a64f5a,
      0x3e246a79, 0x27333ba3, 0x0c4763f2, 0x840abf27, 0x7a290d5d, 0x065c43da, 0xfb3e89cb,
      0xcc7617db, 0xb9e66c34, 0xa9993667, 0x84badedd, 0xc21462bc, 0x1487472c, 0xb20f7a99,
      0xef57b9cd, 0xebe6b238, 0x9fe3095e, 0x78bc8d4b, 0xa43fcf15, 0x668b2ff8, 0xeeaba2cc,
      0x12b1edeb]"
    by (simp add: sha256_schedule_numeral ssig0_def ssig1_def rotr_def)
  have sched: "sha256_schedule 48
      [0x61626380, 0x00000000, 0x00000000, 0x00000000, 0x00000000, 0x00000000, 0x00000000,
      0x00000000, 0x00000000, 0x00000000, 0x00000000, 0x00000000, 0x00000000, 0x00000000,
      0x00000000, 0x00000018] =
      [0x61626380, 0x00000000, 0x00000000, 0x00000000, 0x00000000, 0x00000000, 0x00000000,
      0x00000000, 0x00000000, 0x00000000, 0x00000000, 0x00000000, 0x00000000, 0x00000000,
      0x00000000, 0x00000018, 0x61626380, 0x000f0000, 0x7da86405, 0x600003c6, 0x3e9d7b78,
      0x0183fc00, 0x12dcbfdb, 0xe2e2c38e, 0xc8215c1a, 0xb73679a2, 0xe5bc3909, 0x32663c5b,
      0x9d209d67, 0xec8726cb, 0x702138a4, 0xd3b7973b, 0x93f5997f, 0x3b68ba73, 0xaff4ffc1,
      0xf10a5c62, 0x0a8b3996, 0x72af830a, 0x9409e33e, 0x24641522, 0x9f47bf94, 0xf0a64f5a,
      0x3e246a79, 0x27333ba3, 0x0c4763f2, 0x840abf27, 0x7a290d5d, 0x065c43da, 0xfb3e89cb,
      0xcc7617db, 0xb9e66c34, 0xa9993667, 0x84badedd, 0xc21462bc, 0x1487472c, 0xb20f7a99,
      0xef57b9cd, 0xebe6b238, 0x9fe3095e, 0x78bc8d4b, 0xa43fcf15, 0x668b2ff8, 0xeeaba2cc,
      0x12b1edeb]"
    by (simp only: sha256_schedule_48 w24 w32 w40 w48 w56 w64)
  have r4: "foldl sha256_round (0x6a09e667, 0xbb67ae85, 0x3c6ef372, 0xa54ff53a, 0x510e527f, 0x9b05688c, 0x1f83d9ab, 0x5be0cd19)
      [(0x428a2f98, 0x61626380), (0x71374491, 0x00000000), (0xb5c0fbcf, 0x00000000), (0xe9b5dba5,
      0x00000000)] =
      (0xd550f666, 0xc8c347a7, 0x5a6ad9ad, 0x5d6aebcd, 0x24e00850, 0xf92939eb, 0x78ce7989, 0xfa2a4622)"
    by (simp add: bsig0_def bsig1_def Ch_def Maj_def rotr_def Let_def)
  have r8: "foldl sha256_round (0xd550f666, 0xc8c347a7, 0x5a6ad9ad, 0x5d6aebcd, 0x24e00850, 0xf92939eb, 0x78ce7989, 0xfa2a4622)
      [(0x3956c25b, 0x00000000), (0x59f111f1, 0x00000000), (0x923f82a4, 0x00000000), (0xab1c5ed5,
      0x00000000)] =
      (0x85a07b5f, 0xe5030380, 0x2b4209f5, 0x04409a6a, 0x0c657a79, 0x9b27a401, 0x714260ad, 0x43ada245)"
    by (simp add: bsig0_def bsig1_def Ch_def Maj_def rotr_def Let_def)
  have r12: "foldl sha256_round (0x85a07b5f, 0xe5030380, 0x2b4209f5, 0x04409a6a, 0x0c657a79, 0x9b27a401, 0x714260ad, 0x43ada245)
      [(0xd807aa98, 0x00000000), (0x12835b01, 0x00000000), (0x243185be, 0x00000000), (0x550c7dc3,
      0x00000000)] =
      (0xf71fc5a9, 0x4798a3f4, 0x8c87346b, 0x8e04ecb9, 0x816fd6e9, 0x436b23e8, 0x1cc92596, 0x32ca2d8c)"
    by (simp add: bsig0_def bsig1_def Ch_def Maj_def rotr_def Let_def)
  have r16: "foldl sha256_round (0xf71fc5a9, 0x4798a3f4, 0x8c87346b, 0x8e04ecb9, 0x816fd6e9, 0x436b23e8, 0x1cc92596, 0x32ca2d8c)
      [(0x72be5d74, 0x00000000), (0x80deb1fe, 0x00000000), (0x9bdc06a7, 0x00000000), (0xc19bf174,
      0x00000018)] =
      (0xb0fa238e, 0xc0645fde, 0xd932eb16, 0x87912990, 0x07590dcd, 0x0b92f20c, 0x745a48de, 0x1e578218)"
    by (simp add: bsig0_def bsig1_def Ch_def Maj_def rotr_def Let_def)
  have r20: "foldl sha256_round (0xb0fa238e, 0xc0645fde, 0xd932eb16, 0x87912990, 0x07590dcd, 0x0b92f20c, 0x745a48de, 0x1e578218)
      [(0xe49b69c1, 0x61626380), (0xefbe4786, 0x000f0000), (0x0fc19dc6, 0x7da86405), (0x240ca1cc,
      0x600003c6)] =
      (0xe1f20c33, 0xfe777bbf, 0xc2fbd9d1, 0x21da9a9b, 0xb0638179, 0xcc899961, 0x846ee454, 0x8034229c)"
    by (simp add: bsig0_def bsig1_def Ch_def Maj_def rotr_def Let_def)
  have r24: "foldl sha256_round (0xe1f20c33, 0xfe777bbf, 0xc2fbd9d1, 0x21da9a9b, 0xb0638179, 0xcc899961, 0x846ee454, 0x8034229c)
      [(0x2de92c6f, 0x3e9d7b78), (0x4a7484aa, 0x0183fc00), (0x5cb0a9dc, 0x12dcbfdb), (0x76f988da,
      0xe2e2c38e)] =
      (0xc5d53d8d, 0xa7a3623f, 0xc2606d6d, 0x9dc68b63, 0xaa47c347, 0x49f5114a, 0xe1257970, 0x8ada8930)"
    by (simp add: bsig0_def bsig1_def Ch_def Maj_def rotr_def Let_def)
  have r28: "foldl sha256_round (0xc5d53d8d, 0xa7a3623f, 0xc2606d6d, 0x9dc68b63, 0xaa47c347, 0x49f5114a, 0xe1257970, 0x8ada8930)
      [(0x983e5152, 0xc8215c1a), (0xa831c66d, 0xb73679a2), (0xb00327c8, 0xe5bc3909), (0xbf597fc7,
      0x32663c5b)] =
      (0x77d37528, 0xb62ec4bc, 0xcde8037d, 0x1c2c2838, 0xedffbff8, 0xc74c6516, 0x14383d8e, 0x2823ef91)"
    by (simp add: bsig0_def bsig1_def Ch_def Maj_def rotr_def Let_def)
  have r32: "foldl sha256_round (0x77d37528, 0xb62ec4bc, 0xcde8037d, 0x1c2c2838, 0xedffbff8, 0xc74c6516, 0x14383d8e, 0x2823ef91)
      [(0xc6e00bf3, 0x9d209d67), (0xd5a79147, 0xec8726cb), (0x06ca6351, 0x702138a4), (0x14292967,
      0xd3b7973b)] =
      (0x73b33bf5, 0xea992a22, 0xa0060b30, 0x363482c9, 0xba591112, 0x0109ab3a, 0xade79437, 0x6112a3b7)"
    by (simp add: bsig0_def bsig1_def Ch_def Maj_def rotr_def Let_def)
  have r36: "foldl sha256_round (0x73b33bf5, 0xea992a22, 0xa0060b30, 0x363482c9, 0xba591112, 0x0109ab3a, 0xade79437, 0x6112a3b7)
      [(0x27b70a85, 0x93f5997f), (0x2e1b2138, 0x3b68ba73), (0x4d2c6dfc, 0xaff4ffc1), (0x53380d13,
      0xf10a5c62)] =
      (0x65a0cfe4, 0xa9a7738c, 0xfe604df5, 0x98e12507, 0xf4b002d6, 0x085f3833, 0x59249dd3, 0x9cd9f5f6)"
    by (simp add: bsig0_def bsig1_def Ch_def Maj_def rotr_def Let_def)
  have r40: "foldl sha256_round (0x65a0cfe4, 0xa9a7738c, 0xfe604df5, 0x98e12507, 0xf4b002d6, 0x085f3833, 0x59249dd3, 0x9cd9f5f6)
      [(0x650a7354, 0x0a8b3996), (0x766a0abb, 0x72af830a), (0x81c2c92e, 0x9409e33e), (0x92722c85,
      0x24641522)] =
      (0x79ea687a, 0x6dc57a8a, 0x34df1604, 0x41a65cb1, 0x1efbc0a0, 0xf0781bc8, 0xa507a53d, 0x0772a26b)"
    by (simp add: bsig0_def bsig1_def Ch_def Maj_def rotr_def Let_def)
  have r44: "foldl sha256_round (0x79ea687a, 0x6dc57a8a, 0x34df1604, 0x41a65cb1, 0x1efbc0a0, 0xf0781bc8, 0xa507a53d, 0x0772a26b)
      [(0xa2bfe8a1, 0x9f47bf94), (0xa81a664b, 0xf0a64f5a), (0xc24b8b70, 0x3e246a79), (0xc76c51a3,
      0x27333ba3)] =
      (0x9d4baf93, 0x17aa0dfe, 0xdf46652f, 0xd6670766, 0xfda24c2e, 0xdecd4715, 0x838b2711, 0x26352d63)"
    by (simp add: bsig0_def bsig1_def Ch_def Maj_def rotr_def Let_def)
  have r48: "foldl sha256_round (0x9d4baf93, 0x17aa0dfe, 0xdf46652f, 0xd6670766, 0xfda24c2e, 0xdecd4715, 0x838b2711, 0x26352d63)
      [(0xd192e819, 0x0c4763f2), (0xd6990624, 0x840abf27), (0xf40e3585, 0x7a290d5d), (0x106aa070,
      0x065c43da)] =
      (0x4172328d, 0xa14c14b0, 0x72ab4b91, 0x26628815, 0xfecf0bc6, 0xd57b94a9, 0xb7755da1, 0xa80f11f0)"
    by (simp add: bsig0_def bsig1_def Ch_def Maj_def rotr_def Let_def)
  have r52: "foldl sha256_round (0x4172328d, 0xa14c14b0, 0x72ab4b91, 0x26628815, 0xfecf0bc6, 0xd57b94a9, 0xb7755da1, 0xa80f11f0)
      [(0x19a4c116, 0xfb3e89cb), (0x1e376c08, 0xcc7617db), (0x2748774c, 0xb9e66c34), (0x34b0bcb5,
      0xa9993667)] =
      (0x886e7a22, 0x7a0508a1, 0xf11bfaa8, 0x05757ceb, 0x49231c1e, 0x52f1ccf7, 0x6e5c390c, 0xbd714038)"
    by (simp add: bsig0_def bsig1_def Ch_def Maj_def rotr_def Let_def)
  have r56: "foldl sha256_round (0x886e7a22, 0x7a0508a1, 0xf11bfaa8, 0x05757ceb, 0x49231c1e, 0x52f1ccf7, 0x6e5c390c, 0xbd714038)
      [(0x391c0cb3, 0x84badedd), (0x4ed8aa4a, 0xc21462bc), (0x5b9cca4f, 0x1487472c), (0x682e6ff3,
      0xb20f7a99)] =
      (0x38cc9913, 0x3ec45cdb, 0xf5702fdb, 0x101fd28f, 0x54cb266b, 0xe50e1b4f, 0x9f4787c3, 0x529e7d00)"
    by (simp add: bsig0_def bsig1_def Ch_def Maj_def rotr_def Let_def)
  have r60: "foldl sha256_round (0x38cc9913, 0x3ec45cdb, 0xf5702fdb, 0x101fd28f, 0x54cb266b, 0xe50e1b4f, 0x9f4787c3, 0x529e7d00)
      [(0x748f82ee, 0xef57b9cd), (0x78a5636f, 0xebe6b238), (0x84c87814, 0x9fe3095e), (0x8cc70208,
      0x78bc8d4b)] =
      (0xb6ae8fff, 0xffb70472, 0xc062d46f, 0xfcd1887b, 0xb21bad3d, 0x6d83bfc6, 0x7e44008e, 0x9b5e906c)"
    by (simp add: bsig0_def bsig1_def Ch_def Maj_def rotr_def Let_def)
  have r64: "foldl sha256_round (0xb6ae8fff, 0xffb70472, 0xc062d46f, 0xfcd1887b, 0xb21bad3d, 0x6d83bfc6, 0x7e44008e, 0x9b5e906c)
      [(0x90befffa, 0xa43fcf15), (0xa4506ceb, 0x668b2ff8), (0xbef9a3f7, 0xeeaba2cc), (0xc67178f2,
      0x12b1edeb)] =
      (0x506e3058, 0xd39a2165, 0x04d24d6c, 0xb85e2ce9, 0x5ef50f24, 0xfb121210, 0x948d25b6, 0x961f4894)"
    by (simp add: bsig0_def bsig1_def Ch_def Maj_def rotr_def Let_def)
  have kw: "zip sha256_K
      [0x61626380, 0x00000000, 0x00000000, 0x00000000, 0x00000000, 0x00000000, 0x00000000,
      0x00000000, 0x00000000, 0x00000000, 0x00000000, 0x00000000, 0x00000000, 0x00000000,
      0x00000000, 0x00000018, 0x61626380, 0x000f0000, 0x7da86405, 0x600003c6, 0x3e9d7b78,
      0x0183fc00, 0x12dcbfdb, 0xe2e2c38e, 0xc8215c1a, 0xb73679a2, 0xe5bc3909, 0x32663c5b,
      0x9d209d67, 0xec8726cb, 0x702138a4, 0xd3b7973b, 0x93f5997f, 0x3b68ba73, 0xaff4ffc1,
      0xf10a5c62, 0x0a8b3996, 0x72af830a, 0x9409e33e, 0x24641522, 0x9f47bf94, 0xf0a64f5a,
      0x3e246a79, 0x27333ba3, 0x0c4763f2, 0x840abf27, 0x7a290d5d, 0x065c43da, 0xfb3e89cb,
      0xcc7617db, 0xb9e66c34, 0xa9993667, 0x84badedd, 0xc21462bc, 0x1487472c, 0xb20f7a99,
      0xef57b9cd, 0xebe6b238, 0x9fe3095e, 0x78bc8d4b, 0xa43fcf15, 0x668b2ff8, 0xeeaba2cc,
      0x12b1edeb] =
      [(0x428a2f98, 0x61626380), (0x71374491, 0x00000000), (0xb5c0fbcf, 0x00000000), (0xe9b5dba5,
      0x00000000)] @
      [(0x3956c25b, 0x00000000), (0x59f111f1, 0x00000000), (0x923f82a4, 0x00000000), (0xab1c5ed5,
      0x00000000)] @
      [(0xd807aa98, 0x00000000), (0x12835b01, 0x00000000), (0x243185be, 0x00000000), (0x550c7dc3,
      0x00000000)] @
      [(0x72be5d74, 0x00000000), (0x80deb1fe, 0x00000000), (0x9bdc06a7, 0x00000000), (0xc19bf174,
      0x00000018)] @
      [(0xe49b69c1, 0x61626380), (0xefbe4786, 0x000f0000), (0x0fc19dc6, 0x7da86405), (0x240ca1cc,
      0x600003c6)] @
      [(0x2de92c6f, 0x3e9d7b78), (0x4a7484aa, 0x0183fc00), (0x5cb0a9dc, 0x12dcbfdb), (0x76f988da,
      0xe2e2c38e)] @
      [(0x983e5152, 0xc8215c1a), (0xa831c66d, 0xb73679a2), (0xb00327c8, 0xe5bc3909), (0xbf597fc7,
      0x32663c5b)] @
      [(0xc6e00bf3, 0x9d209d67), (0xd5a79147, 0xec8726cb), (0x06ca6351, 0x702138a4), (0x14292967,
      0xd3b7973b)] @
      [(0x27b70a85, 0x93f5997f), (0x2e1b2138, 0x3b68ba73), (0x4d2c6dfc, 0xaff4ffc1), (0x53380d13,
      0xf10a5c62)] @
      [(0x650a7354, 0x0a8b3996), (0x766a0abb, 0x72af830a), (0x81c2c92e, 0x9409e33e), (0x92722c85,
      0x24641522)] @
      [(0xa2bfe8a1, 0x9f47bf94), (0xa81a664b, 0xf0a64f5a), (0xc24b8b70, 0x3e246a79), (0xc76c51a3,
      0x27333ba3)] @
      [(0xd192e819, 0x0c4763f2), (0xd6990624, 0x840abf27), (0xf40e3585, 0x7a290d5d), (0x106aa070,
      0x065c43da)] @
      [(0x19a4c116, 0xfb3e89cb), (0x1e376c08, 0xcc7617db), (0x2748774c, 0xb9e66c34), (0x34b0bcb5,
      0xa9993667)] @
      [(0x391c0cb3, 0x84badedd), (0x4ed8aa4a, 0xc21462bc), (0x5b9cca4f, 0x1487472c), (0x682e6ff3,
      0xb20f7a99)] @
      [(0x748f82ee, 0xef57b9cd), (0x78a5636f, 0xebe6b238), (0x84c87814, 0x9fe3095e), (0x8cc70208,
      0x78bc8d4b)] @
      [(0x90befffa, 0xa43fcf15), (0xa4506ceb, 0x668b2ff8), (0xbef9a3f7, 0xeeaba2cc), (0xc67178f2,
      0x12b1edeb)]"
    by (simp add: sha256_K_def)
  have rounds: "foldl sha256_round sha256_init (zip sha256_K
      [0x61626380, 0x00000000, 0x00000000, 0x00000000, 0x00000000, 0x00000000, 0x00000000,
      0x00000000, 0x00000000, 0x00000000, 0x00000000, 0x00000000, 0x00000000, 0x00000000,
      0x00000000, 0x00000018, 0x61626380, 0x000f0000, 0x7da86405, 0x600003c6, 0x3e9d7b78,
      0x0183fc00, 0x12dcbfdb, 0xe2e2c38e, 0xc8215c1a, 0xb73679a2, 0xe5bc3909, 0x32663c5b,
      0x9d209d67, 0xec8726cb, 0x702138a4, 0xd3b7973b, 0x93f5997f, 0x3b68ba73, 0xaff4ffc1,
      0xf10a5c62, 0x0a8b3996, 0x72af830a, 0x9409e33e, 0x24641522, 0x9f47bf94, 0xf0a64f5a,
      0x3e246a79, 0x27333ba3, 0x0c4763f2, 0x840abf27, 0x7a290d5d, 0x065c43da, 0xfb3e89cb,
      0xcc7617db, 0xb9e66c34, 0xa9993667, 0x84badedd, 0xc21462bc, 0x1487472c, 0xb20f7a99,
      0xef57b9cd, 0xebe6b238, 0x9fe3095e, 0x78bc8d4b, 0xa43fcf15, 0x668b2ff8, 0xeeaba2cc,
      0x12b1edeb]) =
      (0x506e3058, 0xd39a2165, 0x04d24d6c, 0xb85e2ce9, 0x5ef50f24, 0xfb121210, 0x948d25b6, 0x961f4894)"
    unfolding kw foldl_append sha256_init_def
    by (simp only: r4 r8 r12 r16 r20 r24 r28 r32 r36 r40 r44 r48 r52 r56 r60 r64)
  have blk: "sha256_blocks sha256_init (sha256_pad ''abc'') =
      (0xba7816bf, 0x8f01cfea, 0x414140de, 0x5dae2223, 0xb00361a3, 0x96177a9c, 0xb410ff61, 0xf20015ad)"
    by (simp add: sha256_blocks_single sha256_pad_length sha256_block_def pad sched rounds)
       (simp add: sha256_init_def)
  show ?thesis
    by (simp add: sha256_Sum256_def blk bytes_of_word32_def char_of_def bit_0)
qed









lemma upper_example: "map upper_ascii ''user@example.com'' = ''USER@EXAMPLE.COM''"
  by (simp add: upper_ascii_def char_of_def bit_0)





lemma ToLower_A_umlaut: "strings_ToLower L [CHR 0xC3, CHR 0x84, CHR ''B''] = [CHR 0xC3, CHR 0xA4, CHR ''b'']"
proof -
  have d: "utf8_DecodeRune [CHR 0xC3, CHR 0x84, CHR ''B''] = (0xC4, 2)"
    by (simp add: utf8_DecodeRune_def utf8_first_def Let_def)
  have d': "utf8_DecodeRune [CHR ''B''] = (0x42, 1)"
    by (simp add: utf8_DecodeRune_def utf8_first_def Let_def)
  have r: "utf8_runes [CHR 0xC3, CHR 0x84, CHR ''B''] = [0xC4, 0x42]"
    by (subst utf8_runes.simps, subst utf8_runes.simps, subst utf8_runes.simps) (simp add: d d')
  have l: "unicode_ToLower L 0xC4 = 0xE4" "unicode_ToLower L 0x42 = 0x62"
    by (simp_all add: unicode_ToLower_def caseRanges_latin_def LowerCase_def MaxRune_def UpperLower_def)
  have e: "utf8_AppendRune 0xE4 = [CHR 0xC3, CHR 0xA4]" "utf8_AppendRune 0x62 = [CHR ''b'']"
    by (simp_all add: utf8_AppendRune_def char_of_def bit_0)
  show ?thesis
    by (simp add: strings_ToLower_def strings_Map_def r l e)
qed








text \<open>
  Nor does the token differ between all distinct passwords: there are infinitely many
  passwords and finitely many digests, so for every username two distinct passwords share a
  token. No such pair is known for SHA-256.
\<close>

lemma encodePassword_shared_token:
  "\<exists>password password'.
      password \<noteq> password' \<and> encodePassword L username password = encodePassword L username password'"
proof -
  obtain p p' where "p \<noteq> p'"
    and "sha256_Sum256 (p @ strings_ToLower L username) = sha256_Sum256 (p' @ strings_ToLower L username)"
    using sha256_collision by blast
  then show ?thesis
    by (intro exI [of _ p] exI [of _ p']) (simp add: encodePassword_eq)
qed

end
